theory Spec2Isabelle
  imports Main
begin

section \<open>The module link of the EventHandler\<close>

text \<open>
  The class \<^verbatim>\<open>EventHandler\<close> keeps one encrypted stream to the kernel, a map
  \<^verbatim>\<open>pendingMessages\<close> from correlation ids to the resolve callbacks of outstanding
  requests, and a map \<^verbatim>\<open>bindings\<close> from event names to delegates. The embedding follows
  the current revision of the class, \<^verbatim>\<open>src/unnamed/part_000\<close>. The file
  \<^verbatim>\<open>src/Eventhandler.ts\<close> holds earlier revisions: one whose \<^verbatim>\<open>init\<close> writes
  \<^verbatim>\<open>kernel/init\<close> before it installs the listener and whose listener does not look at
  \<^verbatim>\<open>pendingMessages\<close>, an emitter-based one, and one that opens a connection per request.

  The methods are functions on a record of the object's fields. What they do to the
  outside (the stream, the promises they create, the listeners of the process) is kept
  in further fields of the same record, and the calls made on the stream are logged in
  \<open>trace\<close> in the order in which the source makes them. The static field
  \<^verbatim>\<open>instance\<close> and what a shutdown listener does when the process fires it (it calls
  \<^verbatim>\<open>dispose\<close> and exits) are left out.
\<close>

subsection \<open>Values on the wire\<close>

text \<open>
  A message is the result of \<^verbatim>\<open>JSON.parse\<close>; what is written is the argument of
  \<^verbatim>\<open>JSON.stringify\<close>. Numbers are kept as integers.
\<close>

datatype json =
  JNull
| JBool bool
| JNum int
| JStr string
| JArr "json list"
| JObj "(string \<times> json) list"

text \<open>The result of \<^verbatim>\<open>JSON.parse(body)\<close>: it throws a SyntaxError on a malformed body
  (the empty body included) and returns the decoded value otherwise.\<close>

datatype inbound = Malformed | Parsed json

text \<open>The errors thrown: by \<^verbatim>\<open>JSON.parse\<close>; by a call on \<^verbatim>\<open>undefined\<close> and by the spread of a
  value that is not iterable; by a call that finds the stack full.\<close>

datatype js_error = SyntaxError | TypeError | RangeError

text \<open>\<^verbatim>\<open>!data\<close> is true of \<^verbatim>\<open>null\<close>, \<^verbatim>\<open>false\<close>, \<^verbatim>\<open>0\<close> and the empty string.\<close>

fun falsy :: "json \<Rightarrow> bool" where
  "falsy JNull = True"
| "falsy (JBool b) = (\<not> b)"
| "falsy (JNum n) = (n = 0)"
| "falsy (JStr s) = (s = [])"
| "falsy (JArr xs) = False"
| "falsy (JObj kvs) = False"

text \<open>
  \<^verbatim>\<open>data.k\<close> for one of the keys the handler reads (id, eventname, timeout, payload):
  \<open>None\<close> is \<^verbatim>\<open>undefined\<close>. Only an object has such a property; for a key that occurs
  twice, \<^verbatim>\<open>JSON.parse\<close> keeps the last value.
\<close>

fun getprop :: "json \<Rightarrow> string \<Rightarrow> json option" where
  "getprop (JObj kvs) k = map_of (rev kvs) k"
| "getprop JNull k = None"
| "getprop (JBool b) k = None"
| "getprop (JNum n) k = None"
| "getprop (JStr s) k = None"
| "getprop (JArr xs) k = None"

text \<open>\<^verbatim>\<open>x ?? []\<close>: the empty array replaces \<^verbatim>\<open>undefined\<close> and \<^verbatim>\<open>null\<close>.\<close>

fun nullish_empty :: "json option \<Rightarrow> json" where
  "nullish_empty None = JArr []"
| "nullish_empty (Some JNull) = JArr []"
| "nullish_empty (Some v) = v"

text \<open>
  The spread \<^verbatim>\<open>...x\<close> in an argument list iterates \<^verbatim>\<open>x\<close>: the elements of an array,
  the characters of a string; any other value is not iterable and the call throws a
  TypeError (\<open>None\<close>).
\<close>

fun spread :: "json \<Rightarrow> json list option" where
  "spread (JArr xs) = Some xs"
| "spread (JStr s) = Some (map (\<lambda>c. JStr [c]) s)"
| "spread JNull = None"
| "spread (JBool b) = None"
| "spread (JNum n) = None"
| "spread (JObj kvs) = None"

text \<open>A property whose value is \<^verbatim>\<open>undefined\<close> is left out by \<^verbatim>\<open>JSON.stringify\<close>.\<close>

fun member :: "string \<Rightarrow> json option \<Rightarrow> (string \<times> json) list" where
  "member k None = []"
| "member k (Some v) = [(k, v)]"

text \<open>
  \<^verbatim>\<open>Map.prototype.get\<close> and \<^verbatim>\<open>delete\<close> on a map whose keys are strings, for a key taken
  from a message: a value that is not a string, or \<^verbatim>\<open>undefined\<close>, is no key of the map.
  \<^verbatim>\<open>has(k)\<close> is \<open>map_get m k \<noteq> None\<close>.
\<close>

fun map_get :: "(string \<rightharpoonup> 'a) \<Rightarrow> json option \<Rightarrow> 'a option" where
  "map_get m (Some (JStr k)) = m k"
| "map_get m None = None"
| "map_get m (Some JNull) = None"
| "map_get m (Some (JBool b)) = None"
| "map_get m (Some (JNum n)) = None"
| "map_get m (Some (JArr xs)) = None"
| "map_get m (Some (JObj kvs)) = None"

fun map_delete :: "(string \<rightharpoonup> 'a) \<Rightarrow> json option \<Rightarrow> (string \<rightharpoonup> 'a)" where
  "map_delete m (Some (JStr k)) = m(k := None)"
| "map_delete m None = m"
| "map_delete m (Some JNull) = m"
| "map_delete m (Some (JBool b)) = m"
| "map_delete m (Some (JNum n)) = m"
| "map_delete m (Some (JArr xs)) = m"
| "map_delete m (Some (JObj kvs)) = m"

text \<open>The decimal digits of a number, as \<^verbatim>\<open>"|" + unfinished\<close> appends them.\<close>

fun show_nat :: "nat \<Rightarrow> string" where
  "show_nat n = (if n < 10 then [''0123456789'' ! n]
                 else show_nat (n div 10) @ [''0123456789'' ! (n mod 10)])"

declare show_nat.simps [simp del]

text \<open>The class \<^verbatim>\<open>ResponseArray\<close> is imported, its source is not available; its constructor
  is kept as a constructor applied to the spread arguments.\<close>

datatype ResponseArray = ResponseArray "json list"

subsection \<open>The delegate of an event name\<close>

text \<open>
  A binding is a handler function and the optional class context, both compared by
  identity: a function or object is the number of its reference.
\<close>

type_synonym binding = "nat \<times> nat option"

text \<open>What one bound handler did before the deadline of the event.\<close>

datatype handler_outcome = Completed json | Unfinished

text \<open>Modelled from the spec: \<^verbatim>\<open>Delegate.bind\<close> (the source of the imported
  Utils/Delegate/Delegate is not available) appends the (handler, context) binding; duplicates are kept.\<close>

definition bind :: "binding list \<Rightarrow> nat \<Rightarrow> nat option \<Rightarrow> binding list" where
  "bind funcs func classcontext = funcs @ [(func, classcontext)]"

text \<open>Modelled from the spec: \<^verbatim>\<open>Delegate.unbind\<close> (source not available) removes the
  first binding with the same handler and context, and nothing when there is none.\<close>

definition unbind :: "binding list \<Rightarrow> nat \<Rightarrow> nat option \<Rightarrow> binding list" where
  "unbind funcs func classcontext = remove1 (func, classcontext) funcs"

text \<open>Modelled from the spec: \<^verbatim>\<open>Delegate.invokeAsync\<close> (source not available) returns
  the results of the handlers that completed before the deadline, in binding order, and
  the number of bindings without a result. The k-th outcome belongs to the k-th binding;
  a binding without an outcome never completed.\<close>

definition invokeAsync :: "binding list \<Rightarrow> handler_outcome list \<Rightarrow> json list \<times> nat" where
  "invokeAsync funcs outs =
     (let results = concat (map (\<lambda>out. case out of Completed v \<Rightarrow> [v] | Unfinished \<Rightarrow> [])
                                (take (length funcs) outs))
      in (results, length funcs - length results))"

text \<open>Modelled from the spec: the member \<^verbatim>\<open>DetailedStatus.PARTIAL_TIMEOUT\<close> of an enum
  whose source is not available; the spec gives the detail string as
  \<^verbatim>\<open>PARTIAL_TIMEOUT|<n>\<close>.\<close>

definition PARTIAL_TIMEOUT :: string where
  "PARTIAL_TIMEOUT = ''PARTIAL_TIMEOUT''"

subsection \<open>The object and its surroundings\<close>

text \<open>The interface \<^verbatim>\<open>Configdata\<close> is imported, its source is not available; these are the
  fields the class reads.\<close>

record Configdata =
  timeout :: int
  pass :: "string option"
  loglevel :: int

datatype settled = Fulfilled ResponseArray | Rejected js_error

text \<open>
  The calls made on streams, and the registrations in \<^verbatim>\<open>pendingMessages\<close>, in program
  order. A stream is the number of the connection that created it.
\<close>

datatype event =
  Connect nat int
| OnData nat
| PendingSet string nat
| Write nat json
| Destroy nat

text \<open>A handler run that waits at \<^verbatim>\<open>await ... invokeAsync(data.timeout, data.payload)\<close>:
  the id of the message, the bindings invoked and the two arguments.\<close>

record suspension =
  s_id :: "json option"
  s_funcs :: "binding list"
  s_timeout :: "json option"
  s_payload :: "json option"

text \<open>
  The first seven fields are the fields of the class. The others are the surroundings:
  the listeners registered on the process, the number of connections opened, the number
  of calls of \<^verbatim>\<open>getUUID\<close>, the promises created by \<^verbatim>\<open>doRequest\<close> (a promise is its
  number; \<open>outcomes\<close> holds the settled ones), the promise that a running \<^verbatim>\<open>dispose\<close>
  awaits, the handler runs waiting for their fan-out, and the trace.
\<close>

record EventHandler =
  modulename :: "string option"
  config :: Configdata
  bindings :: "string \<rightharpoonup> binding list"
  kernelPort :: int
  secStream :: "nat option"
  pendingMessages :: "string \<rightharpoonup> nat"
  disposed :: bool
  listeners :: "string list"
  connections :: nat
  uuidCalls :: nat
  promiseCount :: nat
  outcomes :: "nat \<rightharpoonup> settled"
  disposeAwait :: "nat option"
  suspended :: "suspension list"
  trace :: "event list"

text \<open>
  What the class takes from its runtime: the uuid generator (the k-th call of
  \<^verbatim>\<open>getUUID\<close>), the numeric value of \<^verbatim>\<open>LogLevel.Debug\<close> and the reverse mapping
  \<^verbatim>\<open>LogLevel[level]\<close> of an enum whose source is not available, the clock reading
  \<^verbatim>\<open>new Date().toISOString()\<close>, and \<^verbatim>\<open>JSON.stringify\<close> as text.
\<close>

record runtime =
  getUUID :: "nat \<Rightarrow> string"
  LogLevel_Debug :: int
  LogLevel_name :: "int \<Rightarrow> string"
  toISOString :: string
  stringify :: "json \<Rightarrow> string"

text \<open>The constructor: \<^verbatim>\<open>new EventHandler(kernelport, config, modulename)\<close>.\<close>

definition constructor :: "int \<Rightarrow> Configdata \<Rightarrow> string option \<Rightarrow> EventHandler" where
  "constructor kernelport cfg name =
     \<lparr> modulename = name, config = cfg, bindings = Map.empty, kernelPort = kernelport,
       secStream = None, pendingMessages = Map.empty, disposed = False,
       listeners = [], connections = 0, uuidCalls = 0, promiseCount = 0,
       outcomes = Map.empty, disposeAwait = None, suspended = [], trace = [] \<rparr>"

definition shutdownHooks :: "string list" where
  "shutdownHooks = [''beforeExit'', ''SIGINT'', ''SIGUSR1'', ''SIGUSR2'',
                    ''uncaughtException'', ''SIGTERM'']"

subsection \<open>Promises\<close>

text \<open>A promise is settled once: resolving or rejecting a settled promise changes
  nothing.\<close>

definition settle :: "nat \<Rightarrow> settled \<Rightarrow> EventHandler \<Rightarrow> EventHandler" where
  "settle p v s = (if outcomes s p = None then s\<lparr>outcomes := (outcomes s)(p \<mapsto> v)\<rparr> else s)"

text \<open>
  The rest of \<^verbatim>\<open>dispose\<close> after \<^verbatim>\<open>await this.request("kernel/dispose")\<close>. It runs once the
  awaited promise is settled: \<^verbatim>\<open>this.secStream.destroy()\<close> when it is fulfilled (a
  TypeError without a stream, caught and printed); a rejection goes to the same
  \<^verbatim>\<open>catch\<close>.
\<close>

definition resume_dispose :: "EventHandler \<Rightarrow> EventHandler" where
  "resume_dispose s =
     (case disposeAwait s of
        None \<Rightarrow> s
      | Some p \<Rightarrow>
          (case outcomes s p of
             None \<Rightarrow> s
           | Some (Rejected e) \<Rightarrow> s\<lparr>disposeAwait := None\<rparr>
           | Some (Fulfilled v) \<Rightarrow>
               (case secStream s of
                  None \<Rightarrow> s\<lparr>disposeAwait := None\<rparr>
                | Some h \<Rightarrow> s\<lparr>disposeAwait := None, trace := trace s @ [Destroy h]\<rparr>)))"

subsection \<open>Requests\<close>

text \<open>\<^verbatim>\<open>String.prototype.padEnd\<close> with a blank.\<close>

definition padEnd :: "nat \<Rightarrow> string \<Rightarrow> string" where
  "padEnd n str = str @ replicate (n - length str) CHR '' ''"

definition log_message :: "runtime \<Rightarrow> int \<Rightarrow> string option \<Rightarrow> string \<Rightarrow> string" where
  "log_message R logLevel name content =
     ''['' @ toISOString R @ ''] '' @ padEnd 9 (''['' @ LogLevel_name R logLevel @ '']'')
       @ '' ['' @ (case name of None \<Rightarrow> ''undefined'' | Some m \<Rightarrow> m) @ ''] '' @ content"

text \<open>The object literal \<^verbatim>\<open>data\<close> of \<^verbatim>\<open>doRequest\<close>.\<close>

definition Eventdata ::
  "string \<Rightarrow> string option \<Rightarrow> string option \<Rightarrow> string \<Rightarrow> int \<Rightarrow> json \<Rightarrow> json" where
  "Eventdata uuid pw name path tmo payload =
     JObj ([(''id'', JStr uuid)] @ member ''pass'' (map_option JStr pw)
           @ member ''modulename'' (map_option JStr name)
           @ [(''eventname'', JStr path), (''timeout'', JNum tmo), (''payload'', payload)])"

text \<open>\<^verbatim>\<open>SecStream.write(JSON.stringify(data))\<close> inside the executor of the promise
  \<open>prm\<close>: without a stream the call throws a TypeError, which rejects the promise.\<close>

definition stream_write :: "nat option \<Rightarrow> nat \<Rightarrow> json \<Rightarrow> EventHandler \<Rightarrow> EventHandler" where
  "stream_write SecStream prm data s =
     (case SecStream of
        None \<Rightarrow> settle prm (Rejected TypeError) s
      | Some h \<Rightarrow> s\<lparr>trace := trace s @ [Write h data]\<rparr>)"

text \<open>\<^verbatim>\<open>this.pendingMessages.set(uuid, resolve)\<close> for the resolve callback of promise
  \<open>prm\<close>.\<close>

definition pendingMessages_set :: "string \<Rightarrow> nat \<Rightarrow> EventHandler \<Rightarrow> EventHandler" where
  "pendingMessages_set uuid prm s =
     s\<lparr>pendingMessages := (pendingMessages s)(uuid \<mapsto> prm),
       trace := trace s @ [PendingSet uuid prm]\<rparr>"

text \<open>
  \<^verbatim>\<open>doRequest\<close>, \<^verbatim>\<open>requestInternal\<close> and \<^verbatim>\<open>Log\<close> call each other: \<^verbatim>\<open>doRequest\<close> logs
  what it writes at level Debug through its \<^verbatim>\<open>logger\<close> (always \<^verbatim>\<open>this\<close>), and a
  \<^verbatim>\<open>Log\<close> that passes the threshold is itself a request, which nobody awaits. With
  Debug at or above the threshold every request logs itself by a further request, until
  the call stack is used up.

  The first argument is the number of nested calls of \<^verbatim>\<open>Log\<close> that the call stack still
  admits. The request that finds it at 0 has registered its id when its call of \<^verbatim>\<open>Log\<close>
  overflows the stack: the RangeError is thrown inside the executor of its promise, which
  rejects that promise; nothing is written for this request, and \<^verbatim>\<open>doRequest\<close> returns
  the rejected promise. The error does not leave that executor, so the calls around it
  return, and each executor around it goes on and writes its envelope. \<^verbatim>\<open>doRequest\<close>
  returns its promise; the result is never \<open>None\<close>, which stands for a call that throws.
\<close>

function doRequest ::
    "nat \<Rightarrow> runtime \<Rightarrow> nat option \<Rightarrow> string \<Rightarrow> int \<Rightarrow> json \<Rightarrow> EventHandler
      \<Rightarrow> (nat \<times> EventHandler) option"
  and requestInternal ::
    "nat \<Rightarrow> runtime \<Rightarrow> string \<Rightarrow> int \<Rightarrow> json \<Rightarrow> EventHandler \<Rightarrow> (nat \<times> EventHandler) option"
  and Log :: "nat \<Rightarrow> runtime \<Rightarrow> int \<Rightarrow> string \<Rightarrow> EventHandler \<Rightarrow> EventHandler option"
where
  "doRequest 0 R SecStream path tmo payload s =
     (let uuid = getUUID R (uuidCalls s);
          s1 = s\<lparr>uuidCalls := Suc (uuidCalls s)\<rparr>;
          prm = promiseCount s1;
          s2 = s1\<lparr>promiseCount := Suc prm\<rparr>;
          s3 = pendingMessages_set uuid prm s2
      in Some (prm, settle prm (Rejected RangeError) s3))"
| "doRequest (Suc n) R SecStream path tmo payload s =
     (let uuid = getUUID R (uuidCalls s);
          s1 = s\<lparr>uuidCalls := Suc (uuidCalls s)\<rparr>;
          prm = promiseCount s1;
          s2 = s1\<lparr>promiseCount := Suc prm\<rparr>;
          s3 = pendingMessages_set uuid prm s2;
          data = Eventdata uuid (pass (config s3)) (modulename s3) path tmo payload
      in case Log n R (LogLevel_Debug R) (''Eventhandler wrote: '' @ stringify R data) s3 of
           None \<Rightarrow> None
         | Some s4 \<Rightarrow> Some (prm, stream_write SecStream prm data s4))"
| "requestInternal n R eventname tmo payload s =
     doRequest n R (secStream s) eventname tmo payload s"
| "Log n R logLevel content s =
     (if logLevel < loglevel (config s) then Some s
      else map_option snd
             (requestInternal n R ''kernel/log'' (timeout (config s))
                (JObj [(''message'', JStr (log_message R logLevel (modulename s) content))]) s))"
  by pat_completeness auto

termination
  by (relation "measure (\<lambda>x. case x of
          Inl (n, _) \<Rightarrow> 3 * n
        | Inr (Inl (n, _)) \<Rightarrow> 3 * n + 1
        | Inr (Inr (n, _)) \<Rightarrow> 3 * n + 2)") auto

text \<open>A payload that is left out is the empty object.\<close>

definition requestCustomTimeout ::
  "nat \<Rightarrow> runtime \<Rightarrow> string \<Rightarrow> int \<Rightarrow> json option \<Rightarrow> EventHandler
    \<Rightarrow> (nat \<times> EventHandler) option" where
  "requestCustomTimeout n R eventname tmo payload s =
     doRequest n R (secStream s) eventname tmo
       (case payload of None \<Rightarrow> JObj [] | Some v \<Rightarrow> v) s"

definition request ::
  "nat \<Rightarrow> runtime \<Rightarrow> string \<Rightarrow> json option \<Rightarrow> EventHandler \<Rightarrow> (nat \<times> EventHandler) option" where
  "request n R eventname payload s =
     requestCustomTimeout n R eventname (timeout (config s))
       (Some (case payload of None \<Rightarrow> JObj [] | Some v \<Rightarrow> v)) s"

subsection \<open>Connecting, subscribing, disposing\<close>

text \<open>
  \<^verbatim>\<open>init\<close>: the shutdown listeners, the connection, the \<^verbatim>\<open>'data'\<close> listener on the new
  stream, then the request \<^verbatim>\<open>kernel/init\<close>.
\<close>

definition init :: "nat \<Rightarrow> runtime \<Rightarrow> EventHandler \<Rightarrow> (nat \<times> EventHandler) option" where
  "init n R s =
     (let s1 = s\<lparr>listeners := listeners s @ shutdownHooks\<rparr>;
          h = connections s1;
          s2 = s1\<lparr>connections := Suc h, secStream := Some h,
                  trace := trace s1 @ [Connect h (kernelPort s1)]\<rparr>;
          s3 = s2\<lparr>trace := trace s2 @ [OnData h]\<rparr>
      in doRequest n R (secStream s3) ''kernel/init'' (timeout (config s3)) (JObj []) s3)"

definition subscribe ::
  "nat \<Rightarrow> runtime \<Rightarrow> string \<Rightarrow> nat \<Rightarrow> nat option \<Rightarrow> EventHandler \<Rightarrow> EventHandler option" where
  "subscribe n R eventname func classcontext s =
     (case (if bindings s eventname = None
            then map_option snd
                   (request n R ''kernel/subscribe''
                      (Some (JObj [(''eventname'', JStr eventname)]))
                      (s\<lparr>bindings := (bindings s)(eventname \<mapsto> [])\<rparr>))
            else Some s) of
        None \<Rightarrow> None
      | Some s1 \<Rightarrow>
          (case bindings s1 eventname of
             None \<Rightarrow> Some s1
           | Some funcs \<Rightarrow>
               Some (s1\<lparr>bindings := (bindings s1)(eventname \<mapsto> bind funcs func classcontext)\<rparr>)))"

definition unsubscribe ::
  "nat \<Rightarrow> runtime \<Rightarrow> string \<Rightarrow> nat \<Rightarrow> nat option \<Rightarrow> EventHandler \<Rightarrow> EventHandler option" where
  "unsubscribe n R eventname func classcontext s =
     (case bindings s eventname of
        None \<Rightarrow> Some s
      | Some funcs \<Rightarrow>
          (let funcs1 = unbind funcs func classcontext;
               s1 = s\<lparr>bindings := (bindings s)(eventname \<mapsto> funcs1)\<rparr>
           in if length funcs1 = 0
              then Some (s1\<lparr>bindings := (bindings s1)(eventname := None)\<rparr>)
              else map_option snd
                     (request n R ''kernel/unsubscribe''
                        (Some (JObj [(''eventname'', JStr eventname)])) s1)))"

text \<open>
  \<^verbatim>\<open>dispose\<close> up to its \<^verbatim>\<open>await\<close>, and past it when the promise is settled already.
  \<^verbatim>\<open>process.off(eventType, () => this.dispose)\<close> is given a new function, which is no
  registered listener: nothing is removed.
\<close>

definition dispose :: "nat \<Rightarrow> runtime \<Rightarrow> EventHandler \<Rightarrow> EventHandler option" where
  "dispose n R s =
     (if disposed s then Some s
      else
        (let s1 = s\<lparr>disposed := True\<rparr>;
             s2 = s1\<lparr>bindings := Map.empty\<rparr>
         in case request n R ''kernel/dispose'' None s2 of
              None \<Rightarrow> None
            | Some (prm, s3) \<Rightarrow> Some (resume_dispose (s3\<lparr>disposeAwait := Some prm\<rparr>))))"

subsection \<open>The listener for inbound messages\<close>

text \<open>
  The \<^verbatim>\<open>'data'\<close> listener up to its \<^verbatim>\<open>await\<close>. The first component is the error that
  rejects the promise of this run, if one is thrown. The callers that wait for a promise
  resolved here run right after the listener returns.
\<close>

definition onData :: "inbound \<Rightarrow> EventHandler \<Rightarrow> js_error option \<times> EventHandler" where
  "onData body s =
     (case body of
        Malformed \<Rightarrow> (Some SyntaxError, s)
      | Parsed data \<Rightarrow>
          if falsy data then (None, s)
          else
            (case map_get (pendingMessages s) (getprop data ''id'') of
               Some prm \<Rightarrow>
                 (case spread (nullish_empty (getprop data ''payload'')) of
                    None \<Rightarrow> (Some TypeError, s)
                  | Some items \<Rightarrow>
                      (let s1 = settle prm (Fulfilled (ResponseArray items)) s;
                           s2 = s1\<lparr>pendingMessages :=
                                   map_delete (pendingMessages s1) (getprop data ''id'')\<rparr>
                       in (None, resume_dispose s2)))
             | None \<Rightarrow>
                 (case map_get (bindings s) (getprop data ''eventname'') of
                    None \<Rightarrow> (None, s)
                  | Some funcs \<Rightarrow>
                      (None, s\<lparr>suspended := suspended s @
                                 [\<lparr> s_id = getprop data ''id'', s_funcs = funcs,
                                    s_timeout = getprop data ''timeout'',
                                    s_payload = getprop data ''payload'' \<rparr>]\<rparr>))))"

text \<open>The object literal \<^verbatim>\<open>processedResults\<close>.\<close>

definition processedResults :: "json option \<Rightarrow> string option \<Rightarrow> json list \<Rightarrow> nat \<Rightarrow> json" where
  "processedResults i name results unfinished =
     JObj (member ''id'' i @ member ''modulename'' (map_option JStr name)
           @ [(''statuscode'', JNum (if unfinished = 0 then 200 else 207)),
              (''detailedstatus'',
                 JStr (if unfinished = 0 then ''''
                       else PARTIAL_TIMEOUT @ ''|'' @ show_nat unfinished)),
              (''content'', JArr results)])"

text \<open>The listener after its \<^verbatim>\<open>await\<close>, for the waiting run \<open>w\<close> and the outcomes of its
  handlers: the response is written to the stream the object holds by then.\<close>

definition onData_resumed ::
  "suspension \<Rightarrow> handler_outcome list \<Rightarrow> EventHandler \<Rightarrow> js_error option \<times> EventHandler" where
  "onData_resumed w outs s =
     (case invokeAsync (s_funcs w) outs of
        (results, unfinished) \<Rightarrow>
          (case secStream s of
             None \<Rightarrow> (Some TypeError, s)
           | Some h \<Rightarrow>
               (None, s\<lparr>trace := trace s @
                          [Write h (processedResults (s_id w) (modulename s) results unfinished)]\<rparr>)))"

subsection \<open>Runs\<close>

text \<open>
  One thing happens at a time: a call of a public method, a message on the stream, or the
  end of the fan-out of the k-th waiting handler run. A message is handled only when
  \<^verbatim>\<open>init\<close> has installed the listener.
\<close>

datatype action =
  Init
| Request string "json option"
| RequestCustomTimeout string int "json option"
| Subscribe string nat "nat option"
| Unsubscribe string nat "nat option"
| Dispose
| LogCall int string
| Data inbound
| FanoutDone nat "handler_outcome list"

fun step :: "nat \<Rightarrow> runtime \<Rightarrow> action \<Rightarrow> EventHandler \<Rightarrow> EventHandler option" where
  "step n R Init s = map_option snd (init n R s)"
| "step n R (Request e payload) s = map_option snd (request n R e payload s)"
| "step n R (RequestCustomTimeout e tmo payload) s =
     map_option snd (requestCustomTimeout n R e tmo payload s)"
| "step n R (Subscribe e f c) s = subscribe n R e f c s"
| "step n R (Unsubscribe e f c) s = unsubscribe n R e f c s"
| "step n R Dispose s = dispose n R s"
| "step n R (LogCall l content) s = Log n R l content s"
| "step n R (Data body) s = (if secStream s = None then Some s else Some (snd (onData body s)))"
| "step n R (FanoutDone k outs) s =
     (if k < length (suspended s)
      then Some (snd (onData_resumed (suspended s ! k) outs
                        (s\<lparr>suspended := take k (suspended s) @ drop (Suc k) (suspended s)\<rparr>)))
      else Some s)"

fun run :: "nat \<Rightarrow> runtime \<Rightarrow> action list \<Rightarrow> EventHandler \<Rightarrow> EventHandler option" where
  "run n R [] s = Some s"
| "run n R (a # as) s = (case step n R a s of None \<Rightarrow> None | Some s1 \<Rightarrow> run n R as s1)"

subsection \<open>Auxiliary notions\<close>

text \<open>The state in which a \<^verbatim>\<open>doRequest\<close> that logs nothing leaves the object: the uuid and
  the promise are taken, the id is registered, the envelope is written.\<close>

definition posted ::
  "runtime \<Rightarrow> nat option \<Rightarrow> string \<Rightarrow> int \<Rightarrow> json \<Rightarrow> EventHandler \<Rightarrow> EventHandler" where
  "posted R SecStream path tmo payload s =
     stream_write SecStream (promiseCount s)
       (Eventdata (getUUID R (uuidCalls s)) (pass (config s)) (modulename s) path tmo payload)
       (pendingMessages_set (getUUID R (uuidCalls s)) (promiseCount s)
          (s\<lparr>uuidCalls := Suc (uuidCalls s), promiseCount := Suc (promiseCount s)\<rparr>))"

text \<open>The envelopes written, with their streams, in the order of writing.\<close>

fun writes :: "event list \<Rightarrow> (nat \<times> json) list" where
  "writes [] = []"
| "writes (Write h v # tr) = (h, v) # writes tr"
| "writes (Connect h port # tr) = writes tr"
| "writes (OnData h # tr) = writes tr"
| "writes (PendingSet u p # tr) = writes tr"
| "writes (Destroy h # tr) = writes tr"

text \<open>How often streams were closed, and how often they were or will be once the awaited
  promise of a running \<^verbatim>\<open>dispose\<close> is fulfilled.\<close>

fun is_Destroy :: "event \<Rightarrow> bool" where
  "is_Destroy (Destroy h) = True"
| "is_Destroy (Connect h port) = False"
| "is_Destroy (OnData h) = False"
| "is_Destroy (PendingSet u p) = False"
| "is_Destroy (Write h v) = False"

definition destroys :: "event list \<Rightarrow> nat" where
  "destroys tr = length (filter is_Destroy tr)"

definition closings :: "EventHandler \<Rightarrow> nat" where
  "closings s = destroys (trace s) + (if disposeAwait s = None then 0 else 1)"

text \<open>What a later state keeps of an earlier one: the guard flag once it is set, with no
  closing beyond those due, and every settled promise with its outcome.\<close>

definition after :: "EventHandler \<Rightarrow> EventHandler \<Rightarrow> bool" where
  "after s s' \<longleftrightarrow>
     (disposed s \<longrightarrow> disposed s' \<and> closings s' \<le> closings s)
     \<and> (\<forall>p v. outcomes s p = Some v \<longrightarrow> outcomes s' p = Some v)"

text \<open>
  What requests add to the trace: registrations and writes only, each write of an
  envelope whose id was registered before it, in this list or among \<open>seen\<close>.
\<close>

fun request_events :: "string list \<Rightarrow> event list \<Rightarrow> bool" where
  "request_events seen [] = True"
| "request_events seen (PendingSet u p # tr) = request_events (u # seen) tr"
| "request_events seen (Write h v # tr) =
     ((\<exists>u \<in> set seen. getprop v ''id'' = Some (JStr u)) \<and> request_events seen tr)"
| "request_events seen (Connect h port # tr) = False"
| "request_events seen (OnData h # tr) = False"
| "request_events seen (Destroy h # tr) = False"

text \<open>
  A state that differs from an earlier one by requests only: ids were registered,
  envelopes written, promises created and some of the new ones rejected; no stream was
  closed, no promise that existed was settled, and the rest of the object is as it was.
\<close>

definition requested :: "EventHandler \<Rightarrow> EventHandler \<Rightarrow> bool" where
  "requested s s' \<longleftrightarrow>
     modulename s' = modulename s \<and> config s' = config s \<and> bindings s' = bindings s
     \<and> kernelPort s' = kernelPort s \<and> secStream s' = secStream s \<and> disposed s' = disposed s
     \<and> listeners s' = listeners s \<and> connections s' = connections s
     \<and> disposeAwait s' = disposeAwait s \<and> suspended s' = suspended s
     \<and> dom (pendingMessages s) \<subseteq> dom (pendingMessages s')
     \<and> promiseCount s \<le> promiseCount s'
     \<and> (\<forall>p. p < promiseCount s \<longrightarrow> outcomes s' p = outcomes s p)
     \<and> (\<forall>p v. outcomes s p = Some v \<longrightarrow> outcomes s' p = Some v)
     \<and> destroys (trace s') = destroys (trace s)"

text \<open>The ids registered, in the order of registration; and the steps of a run that are
  no message from the kernel.\<close>

fun registrations :: "event list \<Rightarrow> string list" where
  "registrations [] = []"
| "registrations (PendingSet u p # tr) = u # registrations tr"
| "registrations (Write h v # tr) = registrations tr"
| "registrations (Connect h port # tr) = registrations tr"
| "registrations (OnData h # tr) = registrations tr"
| "registrations (Destroy h # tr) = registrations tr"


text \<open>A disposed object whose \<^verbatim>\<open>dispose\<close> waits at its \<^verbatim>\<open>await\<close> for the promise \<open>p\<close>, which
  is not settled, with \<open>d\<close> streams closed so far.\<close>

definition awaiting :: "nat \<Rightarrow> nat \<Rightarrow> EventHandler \<Rightarrow> bool" where
  "awaiting p d s \<longleftrightarrow>
     disposed s \<and> disposeAwait s = Some p \<and> outcomes s p = None \<and> p < promiseCount s
     \<and> destroys (trace s) = d"

subsection \<open>An example object\<close>

text \<open>A runtime whose k-th uuid is a row of k + 1 letters and whose Debug level lies below
  the threshold of the configuration, and a module \<^verbatim>\<open>lamp\<close> for the kernel on port
  4000.\<close>

definition demo_runtime :: runtime where
  "demo_runtime =
     \<lparr> getUUID = (\<lambda>k. replicate (Suc k) CHR ''u''), LogLevel_Debug = 0,
       LogLevel_name = (\<lambda>l. ''Warning''), toISOString = ''2021-05-01T10:00:00.000Z'',
       stringify = (\<lambda>v. ''{}'') \<rparr>"

definition demo_config :: Configdata where
  "demo_config = \<lparr> timeout = 1000, pass = Some ''secret'', loglevel = 2 \<rparr>"

definition demo :: EventHandler where
  "demo = constructor 4000 demo_config (Some ''lamp'')"

text \<open>The same module with the threshold of its log at Debug: every request logs
  itself.\<close>

definition demo_loud :: EventHandler where
  "demo_loud = constructor 4000 (demo_config\<lparr>loglevel := 0\<rparr>) (Some ''lamp'')"

text \<open>The object after \<^verbatim>\<open>init\<close>: the request \<^verbatim>\<open>kernel/init\<close> is written and pending.\<close>

definition demo_init_request :: json where
  "demo_init_request =
     JObj [(''id'', JStr ''u''), (''pass'', JStr ''secret''), (''modulename'', JStr ''lamp''),
           (''eventname'', JStr ''kernel/init''), (''timeout'', JNum 1000), (''payload'', JObj [])]"

definition demo_connected :: EventHandler where
  "demo_connected =
     \<lparr> modulename = Some ''lamp'', config = demo_config, bindings = Map.empty,
       kernelPort = 4000, secStream = Some 0, pendingMessages = [''u'' \<mapsto> 0],
       disposed = False, listeners = shutdownHooks, connections = 1, uuidCalls = 1,
       promiseCount = 1, outcomes = Map.empty, disposeAwait = None, suspended = [],
       trace = [Connect 0 4000, OnData 0, PendingSet ''u'' 0, Write 0 demo_init_request] \<rparr>"

text \<open>The object after two handlers were subscribed to \<^verbatim>\<open>temp/changed\<close>, and an event
  for them.\<close>

definition demo_subscribe_request :: json where
  "demo_subscribe_request =
     JObj [(''id'', JStr ''uu''), (''pass'', JStr ''secret''), (''modulename'', JStr ''lamp''),
           (''eventname'', JStr ''kernel/subscribe''), (''timeout'', JNum 1000),
           (''payload'', JObj [(''eventname'', JStr ''temp/changed'')])]"

definition demo_subscribed :: EventHandler where
  "demo_subscribed =
     demo_connected
       \<lparr> bindings := [''temp/changed'' \<mapsto> [(1, None), (2, None)]],
         pendingMessages := [''u'' \<mapsto> 0, ''uu'' \<mapsto> 1],
         uuidCalls := 2, promiseCount := 2,
         trace := trace demo_connected @ [PendingSet ''uu'' 1, Write 0 demo_subscribe_request] \<rparr>"

definition demo_event :: json where
  "demo_event =
     JObj [(''id'', JStr ''abc''), (''eventname'', JStr ''temp/changed''),
           (''timeout'', JNum 50), (''payload'', JObj [(''v'', JNum 10)])]"

text \<open>The request with which the example object would announce that it no longer listens
  to \<^verbatim>\<open>temp/changed\<close>.\<close>

definition demo_unsubscribe_request :: json where
  "demo_unsubscribe_request =
     JObj [(''id'', JStr ''uuu''), (''pass'', JStr ''secret''), (''modulename'', JStr ''lamp''),
           (''eventname'', JStr ''kernel/unsubscribe''), (''timeout'', JNum 1000),
           (''payload'', JObj [(''eventname'', JStr ''temp/changed'')])]"

text \<open>The example object after \<^verbatim>\<open>dispose\<close> was called on it: the request
  \<^verbatim>\<open>kernel/dispose\<close> is written and awaited; and the kernel's answer to it.\<close>

definition demo_dispose_request :: json where
  "demo_dispose_request =
     JObj [(''id'', JStr ''uu''), (''pass'', JStr ''secret''), (''modulename'', JStr ''lamp''),
           (''eventname'', JStr ''kernel/dispose''), (''timeout'', JNum 1000),
           (''payload'', JObj [])]"

definition demo_disposing :: EventHandler where
  "demo_disposing =
     demo_connected
       \<lparr> pendingMessages := [''u'' \<mapsto> 0, ''uu'' \<mapsto> 1], disposed := True,
         uuidCalls := 2, promiseCount := 2, disposeAwait := Some 1,
         trace := trace demo_connected @ [PendingSet ''uu'' 1, Write 0 demo_dispose_request] \<rparr>"

definition demo_dispose_response :: json where
  "demo_dispose_response = JObj [(''id'', JStr ''uu''), (''payload'', JArr [])]"

section \<open>Properties of the methods\<close>

subsection \<open>Requests that log nothing\<close>

lemma pendingMessages_set_fields [simp]:
  "config (pendingMessages_set u p s) = config s"
  "modulename (pendingMessages_set u p s) = modulename s"
  "secStream (pendingMessages_set u p s) = secStream s"
  by (simp_all add: pendingMessages_set_def)

text \<open>With Debug below the threshold a request is one registration and one write.\<close>

lemma doRequest_quiet:
  "LogLevel_Debug R < loglevel (config s) \<Longrightarrow>
   doRequest (Suc n) R S path tmo payload s = Some (promiseCount s, posted R S path tmo payload s)"
  by (simp add: Let_def posted_def pendingMessages_set_def)

lemma doRequest_posted:
  assumes "0 < n" and "LogLevel_Debug R < loglevel (config s)"
  shows "doRequest n R S path tmo payload s
           = Some (promiseCount s, posted R S path tmo payload s)"
proof -
  from assms(1) obtain m where "n = Suc m"
    by (cases n) simp_all
  then show ?thesis
    using doRequest_quiet [OF assms(2)] by (simp only:)
qed

lemma posted_fields [simp]:
  "modulename (posted R S path tmo payload s) = modulename s"
  "config (posted R S path tmo payload s) = config s"
  "bindings (posted R S path tmo payload s) = bindings s"
  "kernelPort (posted R S path tmo payload s) = kernelPort s"
  "secStream (posted R S path tmo payload s) = secStream s"
  "disposed (posted R S path tmo payload s) = disposed s"
  "listeners (posted R S path tmo payload s) = listeners s"
  "connections (posted R S path tmo payload s) = connections s"
  "disposeAwait (posted R S path tmo payload s) = disposeAwait s"
  "suspended (posted R S path tmo payload s) = suspended s"
  "uuidCalls (posted R S path tmo payload s) = Suc (uuidCalls s)"
  "promiseCount (posted R S path tmo payload s) = Suc (promiseCount s)"
  "pendingMessages (posted R S path tmo payload s) =
     (pendingMessages s)(getUUID R (uuidCalls s) \<mapsto> promiseCount s)"
  by (simp_all add: posted_def stream_write_def pendingMessages_set_def settle_def
        split: option.split)

lemma posted_trace:
  "trace (posted R S path tmo payload s) =
     trace s @ PendingSet (getUUID R (uuidCalls s)) (promiseCount s)
       # (case S of None \<Rightarrow> []
          | Some h \<Rightarrow> [Write h (Eventdata (getUUID R (uuidCalls s)) (pass (config s))
                                   (modulename s) path tmo payload)])"
  by (simp add: posted_def stream_write_def pendingMessages_set_def settle_def
        split: option.split)


lemma request_posted:
  "0 < n \<Longrightarrow> LogLevel_Debug R < loglevel (config s) \<Longrightarrow>
   request n R e payload s
     = Some (promiseCount s,
             posted R (secStream s) e (timeout (config s))
               (case payload of None \<Rightarrow> JObj [] | Some v \<Rightarrow> v) s)"
  by (simp add: request_def requestCustomTimeout_def doRequest_posted)

lemma requestCustomTimeout_posted:
  "0 < n \<Longrightarrow> LogLevel_Debug R < loglevel (config s) \<Longrightarrow>
   requestCustomTimeout n R e tmo payload s
     = Some (promiseCount s,
             posted R (secStream s) e tmo (case payload of None \<Rightarrow> JObj [] | Some v \<Rightarrow> v) s)"
  by (simp add: requestCustomTimeout_def doRequest_posted)

lemma Log_posted:
  "0 < n \<Longrightarrow> LogLevel_Debug R < loglevel (config s) \<Longrightarrow>
   Log n R l content s
     = Some (if l < loglevel (config s) then s
             else posted R (secStream s) ''kernel/log'' (timeout (config s))
                    (JObj [(''message'', JStr (log_message R l (modulename s) content))]) s)"
  by (simp add: doRequest_posted)

subsection \<open>Envelopes written and streams closed\<close>

lemma writes_append [simp]: "writes (xs @ ys) = writes xs @ writes ys"
  by (induction xs rule: writes.induct) simp_all

lemma posted_writes:
  "writes (trace (posted R S path tmo payload s)) =
     writes (trace s) @
       (case S of None \<Rightarrow> []
        | Some h \<Rightarrow> [(h, Eventdata (getUUID R (uuidCalls s)) (pass (config s)) (modulename s)
                            path tmo payload)])"
  by (simp add: posted_trace split: option.split)

lemma destroys_append [simp]: "destroys (xs @ ys) = destroys xs + destroys ys"
  by (simp add: destroys_def)

lemma destroys_simps [simp]:
  "destroys [] = 0"
  "destroys (Destroy h # tr) = Suc (destroys tr)"
  "destroys (Connect h port # tr) = destroys tr"
  "destroys (OnData h # tr) = destroys tr"
  "destroys (PendingSet u p # tr) = destroys tr"
  "destroys (Write h v # tr) = destroys tr"
  by (simp_all add: destroys_def)

lemma posted_destroys [simp]:
  "destroys (trace (posted R S path tmo payload s)) = destroys (trace s)"
  by (simp add: posted_trace split: option.split)

lemma posted_closings [simp]: "closings (posted R S path tmo payload s) = closings s"
  by (simp add: closings_def)


lemma closings_pendingMessages_update [simp]:
  "closings (s\<lparr>pendingMessages := m\<rparr>) = closings s"
  by (simp add: closings_def)

lemma closings_suspended_update [simp]: "closings (s\<lparr>suspended := w\<rparr>) = closings s"
  by (simp add: closings_def)

subsection \<open>Promises\<close>

lemma settle_fields [simp]:
  "modulename (settle p v s) = modulename s"
  "config (settle p v s) = config s"
  "bindings (settle p v s) = bindings s"
  "kernelPort (settle p v s) = kernelPort s"
  "secStream (settle p v s) = secStream s"
  "pendingMessages (settle p v s) = pendingMessages s"
  "disposed (settle p v s) = disposed s"
  "listeners (settle p v s) = listeners s"
  "connections (settle p v s) = connections s"
  "disposeAwait (settle p v s) = disposeAwait s"
  "suspended (settle p v s) = suspended s"
  "trace (settle p v s) = trace s"
  by (simp_all add: settle_def)

lemma settle_keeps_outcome:
  "outcomes s q = Some w \<Longrightarrow> outcomes (settle p v s) q = Some w"
  by (auto simp add: settle_def)

lemma settle_outcome:
  "outcomes (settle p v s) p = Some (case outcomes s p of None \<Rightarrow> v | Some w \<Rightarrow> w)"
  by (auto simp add: settle_def)

lemma closings_settle [simp]: "closings (settle p v s) = closings s"
  by (simp add: closings_def)

lemma resume_dispose_fields [simp]:
  "modulename (resume_dispose s) = modulename s"
  "config (resume_dispose s) = config s"
  "bindings (resume_dispose s) = bindings s"
  "secStream (resume_dispose s) = secStream s"
  "pendingMessages (resume_dispose s) = pendingMessages s"
  "disposed (resume_dispose s) = disposed s"
  "outcomes (resume_dispose s) = outcomes s"
  "suspended (resume_dispose s) = suspended s"
  by (simp_all add: resume_dispose_def split: option.split settled.split)

lemma resume_dispose_writes [simp]: "writes (trace (resume_dispose s)) = writes (trace s)"
  by (simp add: resume_dispose_def split: option.split settled.split)

lemma resume_dispose_closings: "closings (resume_dispose s) \<le> closings s"
  by (simp add: resume_dispose_def closings_def split: option.split settled.split)

subsection \<open>What no step undoes\<close>

lemma after_refl [simp]: "after s s"
  by (simp add: after_def)

lemma after_trans: "after s t \<Longrightarrow> after t u \<Longrightarrow> after s u"
  by (auto simp add: after_def)

lemma after_bindings_update: "after s t \<Longrightarrow> after s (t\<lparr>bindings := b\<rparr>)"
  by (simp add: after_def closings_def)

lemma after_bindings_update': "after (s\<lparr>bindings := b\<rparr>) t \<Longrightarrow> after s t"
  by (simp add: after_def closings_def)

subsection \<open>Requests in every configuration\<close>

lemma request_events_mono:
  "request_events seen tr \<Longrightarrow> set seen \<subseteq> set seen' \<Longrightarrow> request_events seen' tr"
proof (induction seen tr arbitrary: seen' rule: request_events.induct)
  case (2 seen u p tr)
  from "2.prems" have "request_events (u # seen) tr" and "set (u # seen) \<subseteq> set (u # seen')"
    by auto
  then have "request_events (u # seen') tr"
    by (rule "2.IH")
  then show ?case by simp
next
  case (3 seen h v tr)
  then show ?case by auto
qed simp_all

lemma request_events_append:
  "request_events seen xs \<Longrightarrow> request_events seen ys \<Longrightarrow> request_events seen (xs @ ys)"
proof (induction seen xs rule: request_events.induct)
  case (2 seen u p tr)
  from "2.prems"(2) have "request_events (u # seen) ys"
    by (rule request_events_mono) auto
  with "2.prems"(1) "2.IH" show ?case by simp
qed simp_all

lemma getprop_Eventdata_id [simp]:
  "getprop (Eventdata u pw name path tmo payload) ''id'' = Some (JStr u)"
  by (cases pw; cases name; simp add: Eventdata_def)

lemma requested_refl [simp]: "requested s s"
  by (simp add: requested_def)

lemma requested_trans: "requested s t \<Longrightarrow> requested t u \<Longrightarrow> requested s u"
  unfolding requested_def by (intro conjI) (simp_all, blast)

lemma requested_closings: "requested s s' \<Longrightarrow> closings s' = closings s"
  by (simp add: requested_def closings_def)

lemma requested_after: "requested s s' \<Longrightarrow> after s s'"
  by (simp add: after_def requested_closings) (simp add: requested_def)

lemma requested_pendingMessages_set:
  "requested s (pendingMessages_set u p
                  (s\<lparr>uuidCalls := a, promiseCount := Suc (promiseCount s)\<rparr>))"
  by (auto simp add: requested_def pendingMessages_set_def)

lemma requested_settle:
  "requested s t \<Longrightarrow> promiseCount s \<le> p \<Longrightarrow> requested s (settle p v t)"
  by (auto simp add: requested_def settle_def)

lemma stream_write_trace:
  "trace (stream_write S p d s) = trace s @ (case S of None \<Rightarrow> [] | Some h \<Rightarrow> [Write h d])"
  by (simp add: stream_write_def split: option.split)

lemma requested_stream_write:
  "requested s t \<Longrightarrow> promiseCount s \<le> p \<Longrightarrow> requested s (stream_write S p d t)"
  by (auto simp add: requested_def stream_write_def settle_def split: option.split)

lemma stream_write_pendingMessages [simp]:
  "pendingMessages (stream_write S p d s) = pendingMessages s"
  by (simp add: stream_write_def split: option.split)

text \<open>
  Every request returns the promise it created. It leaves the object as requests do, and
  its events are its registration, then the events of the requests that log it, then
  its own write; the request with which the stack ran full is registered and not
  written.
\<close>

lemma doRequest_returns:
  "\<exists>s' evs. doRequest n R S path tmo payload s = Some (promiseCount s, s')
       \<and> requested s s'
       \<and> trace s' = trace s @ PendingSet (getUUID R (uuidCalls s)) (promiseCount s) # evs
       \<and> request_events [getUUID R (uuidCalls s)] evs
       \<and> getUUID R (uuidCalls s) \<in> dom (pendingMessages s')
       \<and> (0 < n \<longrightarrow>
            (\<exists>nested. evs = nested @
               (case S of None \<Rightarrow> []
                | Some h \<Rightarrow> [Write h (Eventdata (getUUID R (uuidCalls s)) (pass (config s))
                                         (modulename s) path tmo payload)])))"
proof (induction n arbitrary: S path tmo payload s)
  case 0
  let ?u = "getUUID R (uuidCalls s)"
  let ?s3 = "pendingMessages_set ?u (promiseCount s)
               (s\<lparr>uuidCalls := Suc (uuidCalls s), promiseCount := Suc (promiseCount s)\<rparr>)"
  let ?s' = "settle (promiseCount s) (Rejected RangeError) ?s3"
  have "doRequest 0 R S path tmo payload s = Some (promiseCount s, ?s')"
    by (simp add: Let_def)
  moreover have "requested s ?s'"
    by (rule requested_settle [OF requested_pendingMessages_set]) simp
  moreover have "trace ?s' = trace s @ PendingSet ?u (promiseCount s) # []"
    by (simp add: pendingMessages_set_def)
  moreover have "?u \<in> dom (pendingMessages ?s')"
    by (simp add: pendingMessages_set_def)
  ultimately show ?case
    by (intro exI [of _ ?s'] exI [of _ "[]"]) simp
next
  case (Suc n)
  let ?u = "getUUID R (uuidCalls s)"
  let ?p = "promiseCount s"
  let ?s3 = "pendingMessages_set ?u ?p (s\<lparr>uuidCalls := Suc (uuidCalls s), promiseCount := Suc ?p\<rparr>)"
  let ?data = "Eventdata ?u (pass (config s)) (modulename s) path tmo payload"
  let ?own = "case S of None \<Rightarrow> [] | Some h \<Rightarrow> [Write h ?data]"
  have "\<exists>s4 logged.
          Log n R (LogLevel_Debug R) (''Eventhandler wrote: '' @ stringify R ?data) ?s3 = Some s4
        \<and> requested ?s3 s4 \<and> trace s4 = trace ?s3 @ logged \<and> request_events [] logged"
  proof (cases "LogLevel_Debug R < loglevel (config s)")
    case True
    then show ?thesis
      by (intro exI [of _ ?s3] exI [of _ "[]"]) simp
  next
    case False
    let ?line = "JObj [(''message'',
                   JStr (log_message R (LogLevel_Debug R) (modulename ?s3)
                           (''Eventhandler wrote: '' @ stringify R ?data)))]"
    from Suc.IH [of "secStream ?s3" "''kernel/log''" "timeout (config ?s3)" ?line ?s3]
    obtain s4 evs where
      "doRequest n R (secStream ?s3) ''kernel/log'' (timeout (config ?s3)) ?line ?s3
         = Some (promiseCount ?s3, s4)"
      and "requested ?s3 s4"
      and "trace s4 = trace ?s3 @ PendingSet (getUUID R (uuidCalls ?s3)) (promiseCount ?s3) # evs"
      and "request_events [getUUID R (uuidCalls ?s3)] evs"
      by blast
    with False show ?thesis
      by (intro exI [of _ s4]
            exI [of _ "PendingSet (getUUID R (uuidCalls ?s3)) (promiseCount ?s3) # evs"])
         simp
  qed
  then obtain s4 logged where
    log: "Log n R (LogLevel_Debug R) (''Eventhandler wrote: '' @ stringify R ?data) ?s3 = Some s4"
    and frame: "requested ?s3 s4"
    and tr: "trace s4 = trace ?s3 @ logged"
    and ev: "request_events [] logged"
    by blast
  let ?s' = "stream_write S ?p ?data s4"
  have step: "doRequest (Suc n) R S path tmo payload s
                = (case Log n R (LogLevel_Debug R) (''Eventhandler wrote: '' @ stringify R ?data) ?s3
                   of None \<Rightarrow> None | Some s4 \<Rightarrow> Some (?p, stream_write S ?p ?data s4))"
    by (simp add: Let_def del: Log.simps split: option.split)
  have ret: "doRequest (Suc n) R S path tmo payload s = Some (?p, ?s')"
    unfolding step log by simp
  have "requested s ?s3"
    by (rule requested_pendingMessages_set)
  then have "requested s s4"
    using frame by (rule requested_trans)
  then have all: "requested s ?s'"
    by (rule requested_stream_write) simp
  have "dom (pendingMessages ?s3) \<subseteq> dom (pendingMessages ?s')"
    using frame by (simp add: requested_def)
  moreover have "?u \<in> dom (pendingMessages ?s3)"
    by (simp add: pendingMessages_set_def)
  ultimately have registered: "?u \<in> dom (pendingMessages ?s')"
    by blast
  have shape: "trace ?s' = trace s @ PendingSet ?u ?p # (logged @ ?own)"
    by (simp add: stream_write_trace tr pendingMessages_set_def)
  have "request_events [?u] logged"
    using ev by (rule request_events_mono) simp
  moreover have "request_events [?u] ?own"
    by (cases S) simp_all
  ultimately have ordered: "request_events [?u] (logged @ ?own)"
    by (rule request_events_append)
  show ?case
    using ret all shape ordered registered
    by (intro exI [of _ ?s'] exI [of _ "logged @ ?own"]) blast
qed

lemma request_returns:
  "\<exists>s'. request n R e payload s = Some (promiseCount s, s') \<and> requested s s'"
  using doRequest_returns [of n R "secStream s" e "timeout (config s)"
          "case payload of None \<Rightarrow> JObj [] | Some v \<Rightarrow> v" s]
  by (auto simp add: request_def requestCustomTimeout_def)

lemma requestCustomTimeout_returns:
  "\<exists>s'. requestCustomTimeout n R e tmo payload s = Some (promiseCount s, s') \<and> requested s s'"
  using doRequest_returns [of n R "secStream s" e tmo
          "case payload of None \<Rightarrow> JObj [] | Some v \<Rightarrow> v" s]
  by (auto simp add: requestCustomTimeout_def)

lemma Log_returns: "\<exists>s'. Log n R l content s = Some s' \<and> requested s s'"
proof (cases "l < loglevel (config s)")
  case True
  then show ?thesis by simp
next
  case False
  with doRequest_returns [of n R "secStream s" "''kernel/log''" "timeout (config s)"
          "JObj [(''message'', JStr (log_message R l (modulename s) content))]" s]
  show ?thesis by auto
qed

subsection \<open>The listener, case by case\<close>

lemma getprop_Some_truthy: "getprop data k = Some v \<Longrightarrow> \<not> falsy data"
  by (cases data) simp_all

lemma map_get_Some_truthy: "map_get m (getprop data k) = Some v \<Longrightarrow> \<not> falsy data"
  by (cases "getprop data k") (simp_all add: getprop_Some_truthy)

lemma onData_cases:
  obtains (same) "snd (onData body s) = s"
  | (resolved) k prm items where "map_get (pendingMessages s) k = Some prm"
      "snd (onData body s) =
         resume_dispose ((settle prm (Fulfilled (ResponseArray items)) s)
                           \<lparr>pendingMessages := map_delete (pendingMessages s) k\<rparr>)"
  | (waiting) w where "snd (onData body s) = s\<lparr>suspended := suspended s @ [w]\<rparr>"
proof (cases body)
  case Malformed
  then have "snd (onData body s) = s" by (simp add: onData_def)
  then show ?thesis by (rule same)
next
  case (Parsed data)
  show ?thesis
  proof (cases "falsy data")
    case True
    with Parsed have "snd (onData body s) = s" by (simp add: onData_def)
    then show ?thesis by (rule same)
  next
    case False
    show ?thesis
    proof (cases "map_get (pendingMessages s) (getprop data ''id'')")
      case None
      show ?thesis
      proof (cases "map_get (bindings s) (getprop data ''eventname'')")
        case None
        with Parsed False \<open>map_get (pendingMessages s) (getprop data ''id'') = None\<close>
        have "snd (onData body s) = s" by (simp add: onData_def)
        then show ?thesis by (rule same)
      next
        case (Some funcs)
        with Parsed False \<open>map_get (pendingMessages s) (getprop data ''id'') = None\<close>
        have "snd (onData body s) =
                s\<lparr>suspended := suspended s @
                     [\<lparr> s_id = getprop data ''id'', s_funcs = funcs,
                        s_timeout = getprop data ''timeout'',
                        s_payload = getprop data ''payload'' \<rparr>]\<rparr>"
          by (simp add: onData_def)
        then show ?thesis by (rule waiting)
      qed
    next
      case (Some prm)
      show ?thesis
      proof (cases "spread (nullish_empty (getprop data ''payload''))")
        case None
        with Parsed False Some have "snd (onData body s) = s" by (simp add: onData_def)
        then show ?thesis by (rule same)
      next
        case (Some items)
        with Parsed False \<open>map_get (pendingMessages s) (getprop data ''id'') = Some prm\<close>
        have "snd (onData body s) =
                resume_dispose ((settle prm (Fulfilled (ResponseArray items)) s)
                  \<lparr>pendingMessages := map_delete (pendingMessages s) (getprop data ''id'')\<rparr>)"
          by (simp add: onData_def Let_def)
        with \<open>map_get (pendingMessages s) (getprop data ''id'') = Some prm\<close>
        show ?thesis by (rule resolved)
      qed
    qed
  qed
qed

lemma onData_disposed: "disposed (snd (onData body s)) = disposed s"
  by (cases body s rule: onData_cases) simp_all

lemma onData_keeps_outcome:
  "outcomes s p = Some v \<Longrightarrow> outcomes (snd (onData body s)) p = Some v"
  by (cases body s rule: onData_cases) (simp_all add: settle_keeps_outcome)

lemma onData_closings: "closings (snd (onData body s)) \<le> closings s"
proof (cases body s rule: onData_cases)
  case (resolved i prm items)
  show ?thesis
    unfolding resolved(2)
    by (rule order_trans [OF resume_dispose_closings]) simp
qed simp_all

lemma getprop_processedResults:
  "getprop (processedResults i name results unfinished) ''id'' = i"
  "getprop (processedResults i name results unfinished) ''modulename'' = map_option JStr name"
  "getprop (processedResults i name results unfinished) ''statuscode''
     = Some (JNum (if unfinished = 0 then 200 else 207))"
  "getprop (processedResults i name results unfinished) ''detailedstatus''
     = Some (JStr (if unfinished = 0 then '''' else ''PARTIAL_TIMEOUT|'' @ show_nat unfinished))"
  "getprop (processedResults i name results unfinished) ''content'' = Some (JArr results)"
  by (cases i; cases name; simp add: processedResults_def PARTIAL_TIMEOUT_def)+

subsection \<open>The public methods when nothing is logged\<close>

lemma init_posted:
  "0 < n \<Longrightarrow> LogLevel_Debug R < loglevel (config s) \<Longrightarrow>
   init n R s
     = Some (promiseCount s,
             posted R (Some (connections s)) ''kernel/init'' (timeout (config s)) (JObj [])
               (s\<lparr>listeners := listeners s @ shutdownHooks,
                  connections := Suc (connections s), secStream := Some (connections s),
                  trace := trace s @ [Connect (connections s) (kernelPort s),
                                      OnData (connections s)]\<rparr>))"
  by (simp add: init_def Let_def doRequest_posted)

lemma subscribe_bound:
  "bindings s e = Some funcs \<Longrightarrow>
   subscribe n R e f c s = Some (s\<lparr>bindings := (bindings s)(e \<mapsto> funcs @ [(f, c)])\<rparr>)"
  by (simp add: subscribe_def bind_def)


lemma unsubscribe_unbound:
  "bindings s e = None \<Longrightarrow> unsubscribe n R e f c s = Some s"
  by (simp add: unsubscribe_def)

lemma unsubscribe_emptied:
  "bindings s e = Some funcs \<Longrightarrow> remove1 (f, c) funcs = [] \<Longrightarrow>
   unsubscribe n R e f c s = Some (s\<lparr>bindings := (bindings s)(e := None)\<rparr>)"
  by (simp add: unsubscribe_def unbind_def)

lemma unsubscribe_remaining:
  "bindings s e = Some funcs \<Longrightarrow> remove1 (f, c) funcs \<noteq> [] \<Longrightarrow>
   0 < n \<Longrightarrow> LogLevel_Debug R < loglevel (config s) \<Longrightarrow>
   unsubscribe n R e f c s
     = Some (posted R (secStream s) ''kernel/unsubscribe'' (timeout (config s))
               (JObj [(''eventname'', JStr e)])
               (s\<lparr>bindings := (bindings s)(e \<mapsto> remove1 (f, c) funcs)\<rparr>))"
  by (simp add: unsubscribe_def unbind_def Let_def request_posted)

lemma dispose_disposed: "disposed s \<Longrightarrow> dispose n R s = Some s"
  by (simp add: dispose_def)






subsection \<open>Every call returns, and keeps what is settled\<close>

lemma after_onData: "after s (snd (onData body s))"
  by (simp add: after_def onData_disposed onData_closings onData_keeps_outcome)

lemma after_resumed: "after s (snd (onData_resumed w outs (s\<lparr>suspended := ws\<rparr>)))"
  by (auto simp add: after_def onData_resumed_def closings_def split: prod.split option.split)


lemma init_returns: "\<exists>s'. init n R s = Some (promiseCount s, s') \<and> after s s'"
proof -
  let ?s3 = "s\<lparr>listeners := listeners s @ shutdownHooks,
                connections := Suc (connections s), secStream := Some (connections s),
                trace := trace s @ [Connect (connections s) (kernelPort s),
                                    OnData (connections s)]\<rparr>"
  from doRequest_returns [of n R "Some (connections s)" "''kernel/init''" "timeout (config s)"
         "JObj []" ?s3]
  obtain s' where ret: "doRequest n R (Some (connections s)) ''kernel/init'' (timeout (config s))
                          (JObj []) ?s3 = Some (promiseCount s, s')"
    and frame: "requested ?s3 s'"
    by auto
  have "after s ?s3"
    by (simp add: after_def closings_def)
  then have "after s s'"
    using requested_after [OF frame] by (rule after_trans)
  moreover have "init n R s = Some (promiseCount s, s')"
    using ret by (simp add: init_def Let_def)
  ultimately show ?thesis by blast
qed

text \<open>A subscribe to an event name without an entry requests and binds, whatever is
  logged.\<close>

lemma subscribe_unbound_returns:
  assumes "bindings s e = None"
  shows "\<exists>s1. subscribe n R e f c s = Some (s1\<lparr>bindings := (bindings s)(e \<mapsto> [(f, c)])\<rparr>)
           \<and> requested (s\<lparr>bindings := (bindings s)(e \<mapsto> [])\<rparr>) s1"
proof -
  let ?s0 = "s\<lparr>bindings := (bindings s)(e \<mapsto> [])\<rparr>"
  from request_returns [of n R "''kernel/subscribe''" "Some (JObj [(''eventname'', JStr e)])" ?s0]
  obtain s1 where ret: "request n R ''kernel/subscribe'' (Some (JObj [(''eventname'', JStr e)])) ?s0
                          = Some (promiseCount s, s1)"
    and frame: "requested ?s0 s1"
    by auto
  from frame have "bindings s1 = (bindings s)(e \<mapsto> [])"
    by (simp add: requested_def)
  with assms ret have "subscribe n R e f c s
                        = Some (s1\<lparr>bindings := (bindings s)(e \<mapsto> [(f, c)])\<rparr>)"
    by (simp add: subscribe_def bind_def)
  with frame show ?thesis by blast
qed

lemma subscribe_returns: "\<exists>s'. subscribe n R e f c s = Some s' \<and> after s s'"
proof (cases "bindings s e")
  case None
  from subscribe_unbound_returns [OF None, of n R f c] obtain s1
    where "subscribe n R e f c s = Some (s1\<lparr>bindings := (bindings s)(e \<mapsto> [(f, c)])\<rparr>)"
      and frame: "requested (s\<lparr>bindings := (bindings s)(e \<mapsto> [])\<rparr>) s1"
    by blast
  moreover have "after s (s1\<lparr>bindings := (bindings s)(e \<mapsto> [(f, c)])\<rparr>)"
    by (intro after_bindings_update after_bindings_update' [OF requested_after [OF frame]])
  ultimately show ?thesis by blast
next
  case (Some funcs)
  then show ?thesis
    by (simp add: subscribe_bound after_bindings_update)
qed

text \<open>An unsubscribe that leaves bindings behind keeps the entry with them, whatever
  is logged.\<close>

lemma unsubscribe_remaining_returns:
  assumes "bindings s e = Some funcs" and "remove1 (f, c) funcs \<noteq> []"
  shows "\<exists>s'. unsubscribe n R e f c s = Some s'
           \<and> requested (s\<lparr>bindings := (bindings s)(e \<mapsto> remove1 (f, c) funcs)\<rparr>) s'"
proof -
  let ?s1 = "s\<lparr>bindings := (bindings s)(e \<mapsto> remove1 (f, c) funcs)\<rparr>"
  from request_returns [of n R "''kernel/unsubscribe''" "Some (JObj [(''eventname'', JStr e)])" ?s1]
  obtain s' where "request n R ''kernel/unsubscribe'' (Some (JObj [(''eventname'', JStr e)])) ?s1
                          = Some (promiseCount s, s')"
    and "requested ?s1 s'"
    by auto
  with assms show ?thesis
    by (simp add: unsubscribe_def unbind_def Let_def)
qed

lemma unsubscribe_returns: "\<exists>s'. unsubscribe n R e f c s = Some s' \<and> after s s'"
proof (cases "bindings s e")
  case None
  then show ?thesis by (simp add: unsubscribe_unbound)
next
  case (Some funcs)
  show ?thesis
  proof (cases "remove1 (f, c) funcs = []")
    case True
    with Some show ?thesis
      by (simp add: unsubscribe_emptied after_bindings_update)
  next
    case False
    from unsubscribe_remaining_returns [OF Some False, of n R] obtain s'
      where "unsubscribe n R e f c s = Some s'"
        and "requested (s\<lparr>bindings := (bindings s)(e \<mapsto> remove1 (f, c) funcs)\<rparr>) s'"
      by blast
    then show ?thesis
      by (auto intro: after_bindings_update' [OF requested_after])
  qed
qed

lemma dispose_returns: "\<exists>s'. dispose n R s = Some s' \<and> after s s' \<and> disposed s'"
proof (cases "disposed s")
  case True
  then show ?thesis by (simp add: dispose_disposed)
next
  case False
  let ?s2 = "s\<lparr>disposed := True, bindings := Map.empty\<rparr>"
  from request_returns [of n R "''kernel/dispose''" None ?s2]
  obtain s3 where ret: "request n R ''kernel/dispose'' None ?s2 = Some (promiseCount s, s3)"
    and frame: "requested ?s2 s3"
    by auto
  let ?s' = "resume_dispose (s3\<lparr>disposeAwait := Some (promiseCount s)\<rparr>)"
  from False ret have "dispose n R s = Some ?s'"
    by (simp add: dispose_def)
  moreover have "after s ?s'"
    using False frame by (simp add: after_def requested_def)
  moreover have "disposed ?s'"
    using frame by (simp add: requested_def)
  ultimately show ?thesis by blast
qed

lemma step_returns: "\<exists>s'. step n R a s = Some s' \<and> after s s'"
proof (cases a)
  case Init
  with init_returns [of n R s] show ?thesis by auto
next
  case (Request e payload)
  with request_returns [of n R e payload s] show ?thesis
    by (auto intro: requested_after)
next
  case (RequestCustomTimeout e tmo payload)
  with requestCustomTimeout_returns [of n R e tmo payload s] show ?thesis
    by (auto intro: requested_after)
next
  case (Subscribe e f c)
  with subscribe_returns [of n R e f c s] show ?thesis by simp
next
  case (Unsubscribe e f c)
  with unsubscribe_returns [of n R e f c s] show ?thesis by simp
next
  case Dispose
  with dispose_returns [of n R s] show ?thesis by auto
next
  case (LogCall l content)
  from Log_returns [of n R l content s] obtain s'
    where "Log n R l content s = Some s'" and "requested s s'"
    by blast
  with LogCall show ?thesis
    by (auto simp del: Log.simps intro: requested_after)
next
  case (Data body)
  then show ?thesis by (simp add: after_onData)
next
  case (FanoutDone k outs)
  then show ?thesis by (simp add: after_resumed)
qed

lemma run_returns: "\<exists>s'. run n R as s = Some s' \<and> after s s'"
proof (induction as arbitrary: s)
  case Nil
  show ?case by simp
next
  case (Cons a as)
  from step_returns [of n R a s] obtain t where t: "step n R a s = Some t" "after s t"
    by blast
  from Cons.IH [of t] obtain s' where s': "run n R as t = Some s'" "after t s'"
    by blast
  from t(2) s'(2) have "after s s'"
    by (rule after_trans)
  with t(1) s'(1) show ?case by simp
qed

lemma after_run: "run n R as s = Some s' \<Longrightarrow> after s s'"
  using run_returns [of n R as s] by simp


subsection \<open>A dispose whose request is not answered\<close>


lemma awaiting_bindings_update [simp]: "awaiting p d (s\<lparr>bindings := b\<rparr>) = awaiting p d s"
  by (simp add: awaiting_def)



subsection \<open>The example object\<close>

lemmas demo_defs =
  demo_def demo_config_def demo_runtime_def constructor_def shutdownHooks_def

lemmas run_defs =
  init_def request_def requestCustomTimeout_def subscribe_def unsubscribe_def dispose_def
  onData_def onData_resumed_def pendingMessages_set_def stream_write_def settle_def
  resume_dispose_def Eventdata_def processedResults_def bind_def unbind_def invokeAsync_def
  Let_def

lemma demo_connected: "run (Suc 0) demo_runtime [Init] demo = Some demo_connected"
  by (simp add: demo_connected_def demo_init_request_def demo_defs run_defs)

lemma demo_subscribed:
  "run (Suc 0) demo_runtime
     [Init, Subscribe ''temp/changed'' 1 None, Subscribe ''temp/changed'' 2 None] demo
   = Some demo_subscribed"
  by (simp add: demo_subscribed_def demo_subscribe_request_def demo_connected_def
        demo_init_request_def demo_defs run_defs)

lemma demo_disposing: "dispose (Suc 0) demo_runtime demo_connected = Some demo_disposing"
  by (simp add: demo_disposing_def demo_dispose_request_def demo_connected_def demo_defs run_defs)

lemma show_nat_1: "show_nat (Suc 0) = ''1''"
  by (simp add: show_nat.simps)

section \<open>The specification, claim by claim\<close>

subsection \<open>Correlated responses\<close>

text \<open>
  C1 (amended). An inbound message whose id is pending and whose payload is absent,
  null, an array or a string resolves the pending promise with the response array of
  the payload's items (a promise settled before keeps its outcome), removes the entry,
  and is not dispatched as an event: no handler run is started and nothing is written.
  Whatever happens later, a further message with that id included, the outcome stays.
\<close>

theorem correlated_response_resolves_once:
  assumes "getprop data ''id'' = Some (JStr i)"
    and "pendingMessages s i = Some prm"
    and "spread (nullish_empty (getprop data ''payload'')) = Some items"
  shows "\<exists>s'. onData (Parsed data) s = (None, s')
           \<and> pendingMessages s' = (pendingMessages s)(i := None)
           \<and> outcomes s' prm
               = Some (case outcomes s prm of
                         None \<Rightarrow> Fulfilled (ResponseArray items) | Some v \<Rightarrow> v)
           \<and> bindings s' = bindings s \<and> suspended s' = suspended s
           \<and> writes (trace s') = writes (trace s)
           \<and> (\<forall>n R as s''. run n R as s' = Some s'' \<longrightarrow> outcomes s'' prm = outcomes s' prm)"
proof -
  let ?s' = "resume_dispose ((settle prm (Fulfilled (ResponseArray items)) s)
               \<lparr>pendingMessages := (pendingMessages s)(i := None)\<rparr>)"
  have "\<not> falsy data"
    using assms(1) by (rule getprop_Some_truthy)
  then have ret: "onData (Parsed data) s = (None, ?s')"
    using assms by (simp add: onData_def Let_def)
  have out: "outcomes ?s' prm
               = Some (case outcomes s prm of
                         None \<Rightarrow> Fulfilled (ResponseArray items) | Some v \<Rightarrow> v)"
    by (simp add: settle_outcome)
  have later: "outcomes s'' prm = outcomes ?s' prm" if "run n R as ?s' = Some s''" for n R as s''
    using after_run [OF that] out unfolding after_def by simp
  show ?thesis
    using ret out later by (intro exI [of _ ?s']) simp
qed

theorem correlated_response_resolves_once_witness:
  "map_option (\<lambda>t. (outcomes t 0, pendingMessages t ''u'', suspended t, writes (trace t)))
     (run (Suc 0) demo_runtime
        [Data (Parsed (JObj [(''id'', JStr ''u''), (''payload'', JArr [JNum 1])])),
         Data (Parsed (JObj [(''id'', JStr ''u''), (''payload'', JArr [JNum 2])]))]
        demo_connected)
   = Some (Some (Fulfilled (ResponseArray [JNum 1])), None, [], [(0, demo_init_request)])"
proof -
  let ?first = "JObj [(''id'', JStr ''u''), (''payload'', JArr [JNum 1])]"
  let ?second = "JObj [(''id'', JStr ''u''), (''payload'', JArr [JNum 2])]"
  have "getprop ?first ''id'' = Some (JStr ''u'')"
    and "pendingMessages demo_connected ''u'' = Some 0"
    and "spread (nullish_empty (getprop ?first ''payload'')) = Some [JNum 1]"
    by (simp_all add: demo_connected_def)
  from correlated_response_resolves_once [OF this] obtain s' where
    ret: "onData (Parsed ?first) demo_connected = (None, s')"
    and entry: "pendingMessages s' = (pendingMessages demo_connected)(''u'' := None)"
    and outcome: "outcomes s' 0
               = Some (case outcomes demo_connected 0 of
                         None \<Rightarrow> Fulfilled (ResponseArray [JNum 1]) | Some v \<Rightarrow> v)"
    and frame: "bindings s' = bindings demo_connected" "suspended s' = suspended demo_connected"
      "writes (trace s') = writes (trace demo_connected)"
    and later: "\<And>n R as s''. run n R as s' = Some s'' \<Longrightarrow> outcomes s'' 0 = outcomes s' 0"
    by blast
  have stream: "secStream demo_connected = Some 0"
    by (simp add: demo_connected_def)
  obtain s'' where echo: "run (Suc 0) demo_runtime [Data (Parsed ?second)] s' = Some s''"
    and dropped: "s'' = s'"
    using entry frame by (simp add: onData_def demo_connected_def)
  from later [OF echo] have kept: "outcomes s'' 0 = outcomes s' 0" .
  have "run (Suc 0) demo_runtime [Data (Parsed ?first), Data (Parsed ?second)] demo_connected
          = Some s''"
    using ret stream echo by simp
  then show ?thesis
    using kept dropped entry outcome frame by (simp add: demo_connected_def)
qed

text \<open>An object, such as the payload that \<^verbatim>\<open>init\<close> itself sends, is not iterable: the
  listener throws, the id stays pending and its promise unsettled.\<close>

theorem response_with_object_payload_raises:
  "onData (Parsed (JObj [(''id'', JStr ''u''), (''payload'', JObj [])])) demo_connected
     = (Some TypeError, demo_connected)
   \<and> pendingMessages demo_connected ''u'' = Some 0 \<and> outcomes demo_connected 0 = None"
  by (simp add: onData_def demo_connected_def)

subsection \<open>Responses to events\<close>

text \<open>
  C2. An event with local handlers is answered with one envelope: after the fan-out the
  listener writes, to the stream of the object, the id of the inbound message, the name
  of this module, the results of the handlers that completed as content, and status 200
  with empty detail exactly when no handler is unfinished, else 207 with the detail
  \<^verbatim>\<open>PARTIAL_TIMEOUT|\<close> followed by the number of unfinished handlers.
\<close>

theorem event_response_envelope:
  assumes "map_get (pendingMessages s) (getprop data ''id'') = None"
    and "map_get (bindings s) (getprop data ''eventname'') = Some funcs"
    and "secStream t = Some h"
    and "invokeAsync funcs outs = (results, unfinished)"
  shows "\<exists>w resp.
           onData (Parsed data) s = (None, s\<lparr>suspended := suspended s @ [w]\<rparr>)
         \<and> onData_resumed w outs t = (None, t\<lparr>trace := trace t @ [Write h resp]\<rparr>)
         \<and> getprop resp ''id'' = getprop data ''id''
         \<and> getprop resp ''modulename'' = map_option JStr (modulename t)
         \<and> getprop resp ''content'' = Some (JArr results)
         \<and> getprop resp ''statuscode'' = Some (JNum (if unfinished = 0 then 200 else 207))
         \<and> getprop resp ''detailedstatus''
             = Some (JStr (if unfinished = 0 then ''''
                           else ''PARTIAL_TIMEOUT|'' @ show_nat unfinished))
         \<and> (getprop resp ''statuscode'' = Some (JNum 200)
              \<and> getprop resp ''detailedstatus'' = Some (JStr '''')
            \<longleftrightarrow> unfinished = 0)"
proof -
  let ?w = "\<lparr> s_id = getprop data ''id'', s_funcs = funcs,
               s_timeout = getprop data ''timeout'', s_payload = getprop data ''payload'' \<rparr>"
  let ?resp = "processedResults (getprop data ''id'') (modulename t) results unfinished"
  have "\<not> falsy data"
    using assms(2) by (rule map_get_Some_truthy)
  then have "onData (Parsed data) s = (None, s\<lparr>suspended := suspended s @ [?w]\<rparr>)"
    using assms(1,2) by (simp add: onData_def)
  moreover have "onData_resumed ?w outs t = (None, t\<lparr>trace := trace t @ [Write h ?resp]\<rparr>)"
    using assms(3,4) by (simp add: onData_resumed_def)
  ultimately show ?thesis
    by (intro exI [of _ ?w] exI [of _ ?resp]) (simp add: getprop_processedResults)
qed

theorem event_response_envelope_witness:
  "\<exists>w resp.
     onData (Parsed demo_event) demo_subscribed = (None, demo_subscribed\<lparr>suspended := [w]\<rparr>)
   \<and> onData_resumed w [Completed (JObj [(''ok'', JBool True)]), Unfinished] demo_subscribed
       = (None, demo_subscribed\<lparr>trace := trace demo_subscribed @ [Write 0 resp]\<rparr>)
   \<and> getprop resp ''id'' = Some (JStr ''abc'')
   \<and> getprop resp ''modulename'' = Some (JStr ''lamp'')
   \<and> getprop resp ''content'' = Some (JArr [JObj [(''ok'', JBool True)]])
   \<and> getprop resp ''statuscode'' = Some (JNum 207)
   \<and> getprop resp ''detailedstatus'' = Some (JStr ''PARTIAL_TIMEOUT|1'')"
proof -
  have
    "map_get (pendingMessages demo_subscribed) (getprop demo_event ''id'') = None"
    and "map_get (bindings demo_subscribed) (getprop demo_event ''eventname'')
           = Some [(1, None), (2, None)]"
    and "secStream demo_subscribed = Some 0"
    and "invokeAsync [(1, None), (2, None)]
           [Completed (JObj [(''ok'', JBool True)]), Unfinished]
         = ([JObj [(''ok'', JBool True)]], 1)"
    by (simp_all add: demo_event_def demo_subscribed_def demo_connected_def invokeAsync_def)
  from event_response_envelope [OF this] obtain w resp where
    suspend: "onData (Parsed demo_event) demo_subscribed
                = (None, demo_subscribed\<lparr>suspended := suspended demo_subscribed @ [w]\<rparr>)"
    and respond: "onData_resumed w [Completed (JObj [(''ok'', JBool True)]), Unfinished]
                    demo_subscribed
                  = (None, demo_subscribed\<lparr>trace := trace demo_subscribed @ [Write 0 resp]\<rparr>)"
    and envelope: "getprop resp ''id'' = getprop demo_event ''id''"
      "getprop resp ''modulename'' = map_option JStr (modulename demo_subscribed)"
      "getprop resp ''content'' = Some (JArr [JObj [(''ok'', JBool True)]])"
      "getprop resp ''statuscode'' = Some (JNum (if (1::nat) = 0 then 200 else 207))"
      "getprop resp ''detailedstatus''
         = Some (JStr (if (1::nat) = 0 then '''' else ''PARTIAL_TIMEOUT|'' @ show_nat 1))"
    by blast
  have "suspended demo_subscribed = []" "modulename demo_subscribed = Some ''lamp''"
    "getprop demo_event ''id'' = Some (JStr ''abc'')"
    by (simp_all add: demo_subscribed_def demo_connected_def demo_event_def)
  with suspend respond envelope show ?thesis
    by (intro exI [of _ w] exI [of _ resp]) (simp add: show_nat_1)
qed

subsection \<open>Disposal\<close>







subsection \<open>Subscriptions\<close>

text \<open>
  C5. The specification pairs the removal of an emptied entry with the notification
  \<^verbatim>\<open>kernel/unsubscribe\<close>. The code does one or the other: an unsubscribe that empties the
  entry deletes it and returns before the request, so that nothing is written; an
  unsubscribe that leaves bindings behind keeps the entry and writes the notification.
\<close>

theorem unsubscribe_notifies_only_while_bound:
  assumes "bindings s e = Some funcs"
  shows "(unbind funcs f c = [] \<longrightarrow>
            unsubscribe n R e f c s = Some (s\<lparr>bindings := (bindings s)(e := None)\<rparr>))
       \<and> (unbind funcs f c \<noteq> [] \<and> 0 < n \<and> LogLevel_Debug R < loglevel (config s) \<longrightarrow>
            (\<exists>s'. unsubscribe n R e f c s = Some s'
                 \<and> bindings s' = (bindings s)(e \<mapsto> unbind funcs f c)
                 \<and> writes (trace s') =
                     writes (trace s) @
                       (case secStream s of None \<Rightarrow> []
                        | Some h \<Rightarrow>
                            [(h, Eventdata (getUUID R (uuidCalls s)) (pass (config s))
                                   (modulename s) ''kernel/unsubscribe'' (timeout (config s))
                                   (JObj [(''eventname'', JStr e)]))])))"
proof (intro conjI impI)
  assume "unbind funcs f c = []"
  with assms show "unsubscribe n R e f c s = Some (s\<lparr>bindings := (bindings s)(e := None)\<rparr>)"
    by (simp add: unsubscribe_emptied unbind_def)
next
  assume a: "unbind funcs f c \<noteq> [] \<and> 0 < n \<and> LogLevel_Debug R < loglevel (config s)"
  let ?t = "posted R (secStream s) ''kernel/unsubscribe'' (timeout (config s))
              (JObj [(''eventname'', JStr e)])
              (s\<lparr>bindings := (bindings s)(e \<mapsto> remove1 (f, c) funcs)\<rparr>)"
  from a assms have "unsubscribe n R e f c s = Some ?t"
    by (simp add: unsubscribe_remaining unbind_def)
  then show "\<exists>s'. unsubscribe n R e f c s = Some s'
                 \<and> bindings s' = (bindings s)(e \<mapsto> unbind funcs f c)
                 \<and> writes (trace s') =
                     writes (trace s) @
                       (case secStream s of None \<Rightarrow> []
                        | Some h \<Rightarrow>
                            [(h, Eventdata (getUUID R (uuidCalls s)) (pass (config s))
                                   (modulename s) ''kernel/unsubscribe'' (timeout (config s))
                                   (JObj [(''eventname'', JStr e)]))])"
    by (intro exI [of _ ?t]) (simp add: posted_writes unbind_def split: option.split)
qed

text \<open>The last handler of \<^verbatim>\<open>temp/changed\<close> is unsubscribed: the entry is gone and the
  kernel is told nothing. With a handler left, the kernel is told to unsubscribe the
  module.\<close>

theorem unsubscribe_notifies_only_while_bound_witness:
  "map_option (\<lambda>t. (bindings t ''temp/changed'', writes (trace t)))
     (unsubscribe (Suc 0) demo_runtime ''temp/changed'' 1 None
        (demo_subscribed\<lparr>bindings := [''temp/changed'' \<mapsto> [(1, None)]]\<rparr>))
     = Some (None, [(0, demo_init_request), (0, demo_subscribe_request)])
   \<and> map_option (\<lambda>t. (bindings t ''temp/changed'', writes (trace t)))
       (unsubscribe (Suc 0) demo_runtime ''temp/changed'' 1 None demo_subscribed)
     = Some (Some [(2, None)],
             [(0, demo_init_request), (0, demo_subscribe_request), (0, demo_unsubscribe_request)])"
proof -
  let ?single = "demo_subscribed\<lparr>bindings := [''temp/changed'' \<mapsto> [(1, None)]]\<rparr>"
  have "bindings ?single ''temp/changed'' = Some [(1, None)]"
    by simp
  from unsubscribe_notifies_only_while_bound [OF this, of 1 None "Suc 0" demo_runtime]
  have last: "unsubscribe (Suc 0) demo_runtime ''temp/changed'' 1 None ?single
          = Some (?single\<lparr>bindings := (bindings ?single)(''temp/changed'' := None)\<rparr>)"
    by (simp add: unbind_def)
  have "bindings demo_subscribed ''temp/changed'' = Some [(1, None), (2, None)]"
    by (simp add: demo_subscribed_def)
  from unsubscribe_notifies_only_while_bound [OF this, of 1 None "Suc 0" demo_runtime]
  obtain s' where rest: "unsubscribe (Suc 0) demo_runtime ''temp/changed'' 1 None demo_subscribed
        = Some s'"
      "bindings s' = (bindings demo_subscribed)(''temp/changed'' \<mapsto> unbind [(1, None), (2, None)] 1 None)"
      "writes (trace s') =
         writes (trace demo_subscribed) @
           (case secStream demo_subscribed of None \<Rightarrow> []
            | Some h \<Rightarrow>
                [(h, Eventdata (getUUID demo_runtime (uuidCalls demo_subscribed))
                       (pass (config demo_subscribed)) (modulename demo_subscribed)
                       ''kernel/unsubscribe'' (timeout (config demo_subscribed))
                       (JObj [(''eventname'', JStr ''temp/changed'')]))])"
    by (auto simp add: unbind_def demo_subscribed_def demo_connected_def demo_defs)
  show ?thesis
    unfolding last rest(1)
    by (simp add: rest(2,3) unbind_def demo_subscribed_def demo_connected_def demo_defs
          demo_unsubscribe_request_def Eventdata_def eval_nat_numeral)
qed

subsection \<open>After disposal\<close>

text \<open>
  C6 (amended). The guard flag, once set, is never cleared, and every call of dispose on
  a disposed object returns the object as it is. An unsubscribe changes nothing as long
  as the table of bindings is empty. The other methods do not look at the flag.
\<close>

theorem disposed_guards_dispose_only:
  assumes "disposed s" and "0 < n" and "LogLevel_Debug R < loglevel (config s)"
  shows "\<exists>s'. run n R as s = Some s' \<and> disposed s'
       \<and> (\<forall>m. dispose m R s' = Some s')
       \<and> (bindings s' = Map.empty \<longrightarrow> (\<forall>m e f c. unsubscribe m R e f c s' = Some s'))"
proof -
  from run_returns [of n R as s] obtain s' where ret: "run n R as s = Some s'"
    and "after s s'"
    by blast
  with assms(1) have "disposed s'"
    unfolding after_def by simp
  with ret show ?thesis
    by (simp add: dispose_disposed unsubscribe_unbound)
qed

theorem disposed_guards_dispose_only_witness:
  "map_option (\<lambda>t. (disposed t, dispose (Suc 0) demo_runtime t = Some t,
                     unsubscribe (Suc 0) demo_runtime ''temp/changed'' 1 None t = Some t))
     (run (Suc 0) demo_runtime
        [Data (Parsed demo_dispose_response), Request ''light/on'' None] demo_disposing)
   = Some (True, True, True)"
proof -
  have "disposed demo_disposing" and "0 < Suc 0"
    and "LogLevel_Debug demo_runtime < loglevel (config demo_disposing)"
    by (simp_all add: demo_disposing_def demo_connected_def demo_defs)
  from disposed_guards_dispose_only
         [OF this, of "[Data (Parsed demo_dispose_response), Request ''light/on'' None]"]
  obtain t where t: "run (Suc 0) demo_runtime
        [Data (Parsed demo_dispose_response), Request ''light/on'' None] demo_disposing = Some t"
    and flag: "disposed t" and again: "dispose (Suc 0) demo_runtime t = Some t"
    and unsub: "bindings t = Map.empty \<longrightarrow>
                  unsubscribe (Suc 0) demo_runtime ''temp/changed'' 1 None t = Some t"
    by blast
  have "bindings t = Map.empty"
    using t by (auto simp add: demo_disposing_def demo_connected_def demo_dispose_response_def
          demo_defs run_defs)
  with unsub flag again show ?thesis
    unfolding t by simp
qed

text \<open>After the dispose is complete and the stream closed, a request still registers
  its id and writes its envelope, and a subscribe still binds its handler and writes.\<close>

theorem request_after_dispose_has_effects:
  "map_option (\<lambda>t. (disposed t, destroys (trace t), pendingMessages t ''uuu'',
                     bindings t ''temp/changed'', length (writes (trace t))))
     (run (Suc 0) demo_runtime [Data (Parsed demo_dispose_response)] demo_disposing)
     = Some (True, 1, None, None, 2)
   \<and> map_option (\<lambda>t. (pendingMessages t ''uuu'', length (writes (trace t))))
       (run (Suc 0) demo_runtime
          [Data (Parsed demo_dispose_response), Request ''light/on'' None] demo_disposing)
     = Some (Some 2, 3)
   \<and> map_option (\<lambda>t. (bindings t ''temp/changed'', length (writes (trace t))))
       (run (Suc 0) demo_runtime
          [Data (Parsed demo_dispose_response), Subscribe ''temp/changed'' 1 None] demo_disposing)
     = Some (Some [(1, None)], 3)"
  by (simp add: demo_disposing_def demo_connected_def demo_dispose_response_def demo_defs
        run_defs eval_nat_numeral)

subsection \<open>Bindings\<close>



subsection \<open>Messages that are dropped\<close>

text \<open>
  C8 (amended). A message that cannot be decoded is not caught: the run of the listener
  is rejected with the SyntaxError of \<^verbatim>\<open>JSON.parse\<close>, and the object is left as it was.
  A decoded value that is falsy, and a message that matches no pending id and no event
  name with a local subscription, are dropped without an error and without any effect.
\<close>

theorem undecodable_or_unbound_message:
  "onData Malformed s = (Some SyntaxError, s)
   \<and> (falsy data \<longrightarrow> onData (Parsed data) s = (None, s))
   \<and> (map_get (pendingMessages s) (getprop data ''id'') = None
        \<and> map_get (bindings s) (getprop data ''eventname'') = None
      \<longrightarrow> onData (Parsed data) s = (None, s))"
  by (simp add: onData_def)

theorem undecodable_or_unbound_message_witness:
  "onData Malformed demo_subscribed = (Some SyntaxError, demo_subscribed)
   \<and> onData (Parsed JNull) demo_subscribed = (None, demo_subscribed)
   \<and> onData (Parsed (JObj [(''id'', JStr ''abc''), (''eventname'', JStr ''door/opened'')]))
        demo_subscribed = (None, demo_subscribed)"
proof -
  have "falsy JNull" by simp
  moreover have
    "map_get (pendingMessages demo_subscribed)
       (getprop (JObj [(''id'', JStr ''abc''), (''eventname'', JStr ''door/opened'')]) ''id'')
       = None
     \<and> map_get (bindings demo_subscribed)
         (getprop (JObj [(''id'', JStr ''abc''), (''eventname'', JStr ''door/opened'')])
            ''eventname'') = None"
    by (simp add: demo_subscribed_def demo_connected_def)
  ultimately show ?thesis
    using undecodable_or_unbound_message [of demo_subscribed JNull]
      undecodable_or_unbound_message
        [of demo_subscribed "JObj [(''id'', JStr ''abc''), (''eventname'', JStr ''door/opened'')]"]
    by blast
qed

text \<open>A malformed message is not dropped in silence: an error comes out of the
  listener.\<close>

theorem malformed_message_raises: "fst (onData Malformed demo_subscribed) = Some SyntaxError"
  by (simp add: onData_def)

subsection \<open>Order of listening, registration and writing\<close>

text \<open>
  C9. \<^verbatim>\<open>init\<close> returns its promise, whatever the threshold of the log. It opens the
  stream and installs the \<^verbatim>\<open>'data'\<close> listener on it, and only then registers the request
  \<^verbatim>\<open>kernel/init\<close> and issues whatever is written: every write of the call comes after
  the listener, each after the registration of its id, and the envelope
  \<^verbatim>\<open>kernel/init\<close> is written last, to the stream with the listener (unless the stack is
  full when \<^verbatim>\<open>init\<close> is called). When Debug is not logged it is the only write.
\<close>

theorem init_listens_before_requesting:
  "\<exists>s' evs.
     init n R s = Some (promiseCount s, s')
   \<and> secStream s' = Some (connections s)
   \<and> trace s' =
       trace s @ Connect (connections s) (kernelPort s) # OnData (connections s)
         # PendingSet (getUUID R (uuidCalls s)) (promiseCount s) # evs
   \<and> request_events [getUUID R (uuidCalls s)] evs
   \<and> (0 < n \<longrightarrow>
        (\<exists>nested. evs = nested @
           [Write (connections s)
              (Eventdata (getUUID R (uuidCalls s)) (pass (config s)) (modulename s)
                 ''kernel/init'' (timeout (config s)) (JObj []))]))
   \<and> (0 < n \<and> LogLevel_Debug R < loglevel (config s) \<longrightarrow>
        evs = [Write (connections s)
                 (Eventdata (getUUID R (uuidCalls s)) (pass (config s)) (modulename s)
                    ''kernel/init'' (timeout (config s)) (JObj []))])"
proof -
  let ?h = "connections s"
  let ?s3 = "s\<lparr>listeners := listeners s @ shutdownHooks,
                connections := Suc ?h, secStream := Some ?h,
                trace := trace s @ [Connect ?h (kernelPort s), OnData ?h]\<rparr>"
  let ?own = "Write ?h (Eventdata (getUUID R (uuidCalls s)) (pass (config s)) (modulename s)
                          ''kernel/init'' (timeout (config s)) (JObj []))"
  from doRequest_returns [of n R "Some ?h" "''kernel/init''" "timeout (config s)" "JObj []" ?s3]
  obtain s' evs where
    ret: "doRequest n R (Some ?h) ''kernel/init'' (timeout (config s)) (JObj []) ?s3
            = Some (promiseCount s, s')"
    and frame: "requested ?s3 s'"
    and shape: "trace s' = trace ?s3 @ PendingSet (getUUID R (uuidCalls s)) (promiseCount s) # evs"
    and ordered: "request_events [getUUID R (uuidCalls s)] evs"
    and last: "0 < n \<longrightarrow> (\<exists>nested. evs = nested @ [?own])"
    by auto
  have call: "init n R s = Some (promiseCount s, s')"
    using ret by (simp add: init_def Let_def)
  have stream: "secStream s' = Some ?h"
    using frame by (simp add: requested_def)
  have events: "trace s' = trace s @ Connect ?h (kernelPort s) # OnData ?h
                  # PendingSet (getUUID R (uuidCalls s)) (promiseCount s) # evs"
    using shape by simp
  have only: "0 < n \<and> LogLevel_Debug R < loglevel (config s) \<longrightarrow> evs = [?own]"
  proof
    assume "0 < n \<and> LogLevel_Debug R < loglevel (config s)"
    then have "init n R s
                 = Some (promiseCount s,
                         posted R (Some ?h) ''kernel/init'' (timeout (config s)) (JObj []) ?s3)"
      by (simp add: init_posted)
    with call have "s' = posted R (Some ?h) ''kernel/init'' (timeout (config s)) (JObj []) ?s3"
      by simp
    with events show "evs = [?own]"
      by (simp add: posted_trace)
  qed
  show ?thesis
    by (intro exI [of _ s'] exI [of _ evs] conjI) (rule call stream events ordered last only)+
qed

text \<open>On the example object; and, evaluated, on the object that logs at Debug, with
  room for two nested calls of \<^verbatim>\<open>Log\<close>: three ids are registered after the listener is
  installed, the request with which the stack ran full is rejected and not written, the
  request that logs \<^verbatim>\<open>kernel/init\<close> is written, and \<^verbatim>\<open>kernel/init\<close> is written last.\<close>

theorem init_listens_before_requesting_witness:
  "map_option (\<lambda>r. trace (snd r)) (init 1 demo_runtime demo)
     = Some [Connect 0 4000, OnData 0, PendingSet ''u'' 0,
             Write 0 (JObj [(''id'', JStr ''u''), (''pass'', JStr ''secret''),
                            (''modulename'', JStr ''lamp''), (''eventname'', JStr ''kernel/init''),
                            (''timeout'', JNum 1000), (''payload'', JObj [])])]
   \<and> map_option (\<lambda>r. (take 2 (trace (snd r)), registrations (trace (snd r)),
                       map (\<lambda>w. (fst w, getprop (snd w) ''id'', getprop (snd w) ''eventname''))
                         (writes (trace (snd r))),
                       outcomes (snd r) 2))
       (init 2 demo_runtime demo_loud)
     = Some ([Connect 0 4000, OnData 0], [''u'', ''uu'', ''uuu''],
             [(0, Some (JStr ''uu''), Some (JStr ''kernel/log'')),
              (0, Some (JStr ''u''), Some (JStr ''kernel/init''))],
             Some (Rejected RangeError))"
proof -
  from init_listens_before_requesting [of 1 demo_runtime demo] obtain s' evs where
    ret: "init 1 demo_runtime demo = Some (promiseCount demo, s')"
    and shape: "trace s' =
       trace demo @ Connect (connections demo) (kernelPort demo) # OnData (connections demo)
         # PendingSet (getUUID demo_runtime (uuidCalls demo)) (promiseCount demo) # evs"
    and only: "0 < (1::nat) \<and> LogLevel_Debug demo_runtime < loglevel (config demo) \<longrightarrow>
        evs = [Write (connections demo)
                 (Eventdata (getUUID demo_runtime (uuidCalls demo)) (pass (config demo))
                    (modulename demo) ''kernel/init'' (timeout (config demo)) (JObj []))]"
    by blast
  have "0 < (1::nat) \<and> LogLevel_Debug demo_runtime < loglevel (config demo)"
    by (simp add: demo_defs)
  with only have "evs = [Write (connections demo)
                 (Eventdata (getUUID demo_runtime (uuidCalls demo)) (pass (config demo))
                    (modulename demo) ''kernel/init'' (timeout (config demo)) (JObj []))]"
    by blast
  with shape have quiet: "map_option (\<lambda>r. trace (snd r)) (init 1 demo_runtime demo)
     = Some [Connect 0 4000, OnData 0, PendingSet ''u'' 0,
             Write 0 (JObj [(''id'', JStr ''u''), (''pass'', JStr ''secret''),
                            (''modulename'', JStr ''lamp''), (''eventname'', JStr ''kernel/init''),
                            (''timeout'', JNum 1000), (''payload'', JObj [])])]"
    unfolding ret by (simp add: demo_defs Eventdata_def)
  have loud: "map_option (\<lambda>r. (take 2 (trace (snd r)), registrations (trace (snd r)),
                       map (\<lambda>w. (fst w, getprop (snd w) ''id'', getprop (snd w) ''eventname''))
                         (writes (trace (snd r))),
                       outcomes (snd r) 2))
       (init 2 demo_runtime demo_loud)
     = Some ([Connect 0 4000, OnData 0], [''u'', ''uu'', ''uuu''],
             [(0, Some (JStr ''uu''), Some (JStr ''kernel/log'')),
              (0, Some (JStr ''u''), Some (JStr ''kernel/init''))],
             Some (Rejected RangeError))"
    by (simp add: demo_loud_def demo_defs run_defs eval_nat_numeral)
  from quiet loud show ?thesis ..
qed

text \<open>
  C10. Every request returns its promise, whatever the threshold of the log. Its first
  effect is the registration of its fresh id in \<^verbatim>\<open>pendingMessages\<close>; what follows are
  the registrations and writes of the requests that log it, each write after the
  registration of its id, and last the write of its own envelope, with the id that was
  registered first (no write without a stream, nor when the stack is full at the call).
  The id is registered when the call returns. When Debug is not logged, the
  registration and the write are the only effects on the trace.
\<close>

theorem doRequest_registers_before_writing:
  "\<exists>s' evs.
     doRequest n R S path tmo payload s = Some (promiseCount s, s')
   \<and> trace s' = trace s @ PendingSet (getUUID R (uuidCalls s)) (promiseCount s) # evs
   \<and> request_events [getUUID R (uuidCalls s)] evs
   \<and> getUUID R (uuidCalls s) \<in> dom (pendingMessages s')
   \<and> (0 < n \<longrightarrow>
        (\<exists>nested. evs = nested @
           (case S of None \<Rightarrow> []
            | Some h \<Rightarrow> [Write h (Eventdata (getUUID R (uuidCalls s)) (pass (config s))
                                     (modulename s) path tmo payload)])))
   \<and> (0 < n \<and> LogLevel_Debug R < loglevel (config s) \<longrightarrow>
        evs = (case S of None \<Rightarrow> []
               | Some h \<Rightarrow> [Write h (Eventdata (getUUID R (uuidCalls s)) (pass (config s))
                                        (modulename s) path tmo payload)])
        \<and> pendingMessages s' = (pendingMessages s)(getUUID R (uuidCalls s) \<mapsto> promiseCount s))"
proof -
  let ?own = "case S of None \<Rightarrow> []
              | Some h \<Rightarrow> [Write h (Eventdata (getUUID R (uuidCalls s)) (pass (config s))
                                       (modulename s) path tmo payload)]"
  from doRequest_returns [of n R S path tmo payload s]
  obtain s' evs where
    ret: "doRequest n R S path tmo payload s = Some (promiseCount s, s')"
    and shape: "trace s' = trace s @ PendingSet (getUUID R (uuidCalls s)) (promiseCount s) # evs"
    and ordered: "request_events [getUUID R (uuidCalls s)] evs"
    and registered: "getUUID R (uuidCalls s) \<in> dom (pendingMessages s')"
    and last: "0 < n \<longrightarrow> (\<exists>nested. evs = nested @ ?own)"
    by blast
  have only: "0 < n \<and> LogLevel_Debug R < loglevel (config s) \<longrightarrow>
                evs = ?own
                \<and> pendingMessages s' = (pendingMessages s)(getUUID R (uuidCalls s) \<mapsto> promiseCount s)"
  proof
    assume "0 < n \<and> LogLevel_Debug R < loglevel (config s)"
    then have "doRequest n R S path tmo payload s
                 = Some (promiseCount s, posted R S path tmo payload s)"
      by (simp add: doRequest_posted)
    with ret have "s' = posted R S path tmo payload s"
      by simp
    with shape show "evs = ?own
                \<and> pendingMessages s' = (pendingMessages s)(getUUID R (uuidCalls s) \<mapsto> promiseCount s)"
      by (simp add: posted_trace)
  qed
  show ?thesis
    by (intro exI [of _ s'] exI [of _ evs] conjI) (rule ret shape ordered registered last only)+
qed

text \<open>On the example object; and, evaluated, on the object that logs at Debug, given a
  stream, with room for two nested calls of \<^verbatim>\<open>Log\<close>: the request is registered first
  and written last, the request that logs it is registered and written in between, and
  the request with which the stack ran full is registered, rejected and not written.\<close>

theorem doRequest_registers_before_writing_witness:
  "map_option (\<lambda>r. (fst r, trace (snd r), pendingMessages (snd r) ''u''))
     (doRequest 1 demo_runtime (Some 0) ''light/on'' 1000 (JObj []) demo)
     = Some (0, [PendingSet ''u'' 0,
                 Write 0 (JObj [(''id'', JStr ''u''), (''pass'', JStr ''secret''),
                                (''modulename'', JStr ''lamp''), (''eventname'', JStr ''light/on''),
                                (''timeout'', JNum 1000), (''payload'', JObj [])])],
             Some 0)
   \<and> map_option (\<lambda>r. (fst r,
                       map (\<lambda>e. case e of
                                   PendingSet u p \<Rightarrow> (''set'', Some (JStr u), None)
                                 | Write h v \<Rightarrow> (''write'', getprop v ''id'', getprop v ''eventname'')
                                 | _ \<Rightarrow> (''other'', None, None))
                         (trace (snd r)),
                       outcomes (snd r) 0, outcomes (snd r) 1, outcomes (snd r) 2))
       (doRequest 2 demo_runtime (Some 0) ''light/on'' 1000 (JObj [])
          (demo_loud\<lparr>secStream := Some 0\<rparr>))
     = Some (0, [(''set'', Some (JStr ''u''), None), (''set'', Some (JStr ''uu''), None),
                 (''set'', Some (JStr ''uuu''), None),
                 (''write'', Some (JStr ''uu''), Some (JStr ''kernel/log'')),
                 (''write'', Some (JStr ''u''), Some (JStr ''light/on''))],
             None, None, Some (Rejected RangeError))"
proof -
  from doRequest_registers_before_writing
         [of 1 demo_runtime "Some 0" "''light/on''" 1000 "JObj []" demo]
  obtain s' evs where
    ret: "doRequest 1 demo_runtime (Some 0) ''light/on'' 1000 (JObj []) demo
            = Some (promiseCount demo, s')"
    and shape: "trace s' = trace demo
                  @ PendingSet (getUUID demo_runtime (uuidCalls demo)) (promiseCount demo) # evs"
    and only: "0 < (1::nat) \<and> LogLevel_Debug demo_runtime < loglevel (config demo) \<longrightarrow>
        evs = (case Some 0 of None \<Rightarrow> []
               | Some h \<Rightarrow> [Write h (Eventdata (getUUID demo_runtime (uuidCalls demo))
                                        (pass (config demo)) (modulename demo)
                                        ''light/on'' 1000 (JObj []))])
        \<and> pendingMessages s'
            = (pendingMessages demo)(getUUID demo_runtime (uuidCalls demo) \<mapsto> promiseCount demo)"
    by blast
  have "0 < (1::nat) \<and> LogLevel_Debug demo_runtime < loglevel (config demo)"
    by (simp add: demo_defs)
  with only have "evs = [Write 0 (Eventdata (getUUID demo_runtime (uuidCalls demo))
                                        (pass (config demo)) (modulename demo)
                                        ''light/on'' 1000 (JObj []))]"
    and "pendingMessages s'
            = (pendingMessages demo)(getUUID demo_runtime (uuidCalls demo) \<mapsto> promiseCount demo)"
    by simp_all
  with shape have quiet: "map_option (\<lambda>r. (fst r, trace (snd r), pendingMessages (snd r) ''u''))
     (doRequest 1 demo_runtime (Some 0) ''light/on'' 1000 (JObj []) demo)
     = Some (0, [PendingSet ''u'' 0,
                 Write 0 (JObj [(''id'', JStr ''u''), (''pass'', JStr ''secret''),
                                (''modulename'', JStr ''lamp''), (''eventname'', JStr ''light/on''),
                                (''timeout'', JNum 1000), (''payload'', JObj [])])],
             Some 0)"
    unfolding ret by (simp add: demo_defs Eventdata_def)
  have loud: "map_option (\<lambda>r. (fst r,
                       map (\<lambda>e. case e of
                                   PendingSet u p \<Rightarrow> (''set'', Some (JStr u), None)
                                 | Write h v \<Rightarrow> (''write'', getprop v ''id'', getprop v ''eventname'')
                                 | _ \<Rightarrow> (''other'', None, None))
                         (trace (snd r)),
                       outcomes (snd r) 0, outcomes (snd r) 1, outcomes (snd r) 2))
       (doRequest 2 demo_runtime (Some 0) ''light/on'' 1000 (JObj [])
          (demo_loud\<lparr>secStream := Some 0\<rparr>))
     = Some (0, [(''set'', Some (JStr ''u''), None), (''set'', Some (JStr ''uu''), None),
                 (''set'', Some (JStr ''uuu''), None),
                 (''write'', Some (JStr ''uu''), Some (JStr ''kernel/log'')),
                 (''write'', Some (JStr ''u''), Some (JStr ''light/on''))],
             None, None, Some (Rejected RangeError))"
    by (simp add: demo_loud_def demo_defs run_defs eval_nat_numeral)
  from quiet loud show ?thesis ..
qed

end
